theory Spec2Isabelle
  imports Complex_Main "HOL-Library.AList"
begin

section \<open>Numbers and vowel vectors\<close>

text \<open>
  The lip-sync code computes with JavaScript numbers, which are IEEE 754 double-precision
  values. They are modelled as \<^typ>\<open>real\<close>; the values \<open>NaN\<close>, \<open>Infinity\<close> and \<open>-Infinity\<close> do
  not exist, and where the source starts a loop from \<open>-Infinity\<close> the model uses \<open>None\<close>.

  \<open>fl x\<close> is the double nearest to the real \<open>x\<close>, a tie going to the even significand:
  \<open>binade x\<close> is the exponent of the leading bit of \<open>x\<close>, \<open>quantum x\<close> the spacing of the
  doubles around \<open>x\<close> (53 bits of significand, subnormal values in steps of \<open>pow2 (- 1074)\<close>),
  and \<open>roundEven\<close> rounds to the nearest integer. The exponent has no upper bound: overflow
  to \<open>Infinity\<close> is left out. A real is a double when rounding leaves it as it is.

  An arithmetic operation of the code returns the \<open>fl\<close> of the exact result, and a decimal
  literal denotes the \<open>fl\<close> of its value. The model writes the rounding out in the smoothing
  step of the engine (\<open>lerp\<close>, the volume threshold, the sensitivity scaling and the
  interpolation factor of \<open>processLipSync\<close> and \<open>smoothToSilence\<close>) and for the literals
  \<open>0.7\<close> and \<open>0.8\<close>. The arithmetic of the analyzer, the clock comparison of \<open>animate\<close> and
  the weights of the test sequence are computed exactly.

  A vowel-weight object always carries exactly the keys \<open>aa\<close>, \<open>e\<close>, \<open>ih\<close>, \<open>oh\<close>, \<open>ou\<close>,
  created in this order (\<open>AudioAnalysisResult.vowelWeights\<close>, \<open>smoothedWeights\<close>, the literal
  of \<open>testVowel\<close>). It is a function on the five vowels; \<open>Object.entries\<close>, \<open>Object.values\<close>
  and \<open>for ... in\<close> visit the keys in the order of \<open>vowels\<close>.
\<close>

datatype vowel = AA | E | IH | OH | OU

definition vowels :: "vowel list" where
  "vowels = [AA, E, IH, OH, OU]"

definition zeroWeights :: "vowel \<Rightarrow> real" where
  "zeroWeights = (\<lambda>_. 0)"

definition pow2 :: "int \<Rightarrow> real" where
  "pow2 e = 2 powr of_int e"

definition roundEven :: "real \<Rightarrow> int" where
  "roundEven x =
     (let n = \<lfloor>x\<rfloor>; r = x - of_int n
      in if r < 1 / 2 then n else if 1 / 2 < r then n + 1 else if even n then n else n + 1)"

definition binade :: "real \<Rightarrow> int" where
  "binade x = \<lfloor>log 2 \<bar>x\<bar>\<rfloor>"

definition quantum :: "real \<Rightarrow> real" where
  "quantum x = pow2 (max (binade x - 52) (- 1074))"

definition fl :: "real \<Rightarrow> real" where
  "fl x = (if x = 0 then 0 else of_int (roundEven (x / quantum x)) * quantum x)"

definition isDouble :: "real \<Rightarrow> bool" where
  "isDouble x = (fl x = x)"

section \<open>AudioAnalyzer.ts\<close>

record AudioAnalyzerConfig =
  fftSize :: nat
  smoothingTimeConstant :: real
  minDecibels :: real
  maxDecibels :: real

record AudioAnalysisResult =
  volume :: real
  frequencies :: "real list"
  dominantFrequency :: real
  vowelWeights :: "vowel \<Rightarrow> real"

datatype contextState = Suspended | Running | Closed

record AudioContext =
  ctxState :: contextState
  sampleRate :: real

text \<open>
  The analyser node and the media-element source belong to the browser. The model keeps of
  the analyser node only that it exists, and of the source the identity of its media element.
\<close>

record AudioAnalyzer =
  audioContext :: "AudioContext option"
  analyser :: "unit option"
  source :: "nat option"
  dataArray :: "real list option"
  aaConfig :: AudioAnalyzerConfig

datatype error = TypeError | AudioError

text \<open>The constructor: every field is null, the configuration is stored.\<close>

definition newAudioAnalyzer :: "AudioAnalyzerConfig \<Rightarrow> AudioAnalyzer" where
  "newAudioAnalyzer cfg =
     \<lparr>audioContext = None, analyser = None, source = None, dataArray = None, aaConfig = cfg\<rparr>"

definition defaultAnalyzerConfig :: AudioAnalyzerConfig where
  "defaultAnalyzerConfig =
     \<lparr>fftSize = 256, smoothingTimeConstant = fl (8 / 10), minDecibels = - 90, maxDecibels = - 10\<rparr>"

text \<open>
  \<open>initialize\<close>. The browser decides what \<open>new AudioContext()\<close> returns (\<open>newContext\<close>,
  \<open>None\<close> when it throws), whether \<open>resume()\<close> succeeds and whether
  \<open>createMediaElementSource\<close> succeeds; the other calls of the audio graph are taken to
  succeed. A failure rejects, and the fields assigned so far stay assigned. The data array
  has \<open>frequencyBinCount = fftSize / 2\<close> bins.
\<close>

record BrowserAudio =
  newContext :: "AudioContext option"
  resumeOk :: bool
  sourceOk :: bool

definition initialize ::
  "nat \<Rightarrow> BrowserAudio \<Rightarrow> AudioAnalyzer \<Rightarrow> error option \<times> AudioAnalyzer" where
  "initialize audioElement env a =
     (case (case audioContext a of None \<Rightarrow> newContext env | Some c \<Rightarrow> Some c) of
        None \<Rightarrow> (Some AudioError, a)
      | Some ctx \<Rightarrow>
          let a1 = a\<lparr>audioContext := Some ctx\<rparr>
          in if ctxState ctx = Suspended \<and> \<not> resumeOk env then (Some AudioError, a1)
             else
               let ctx' = (if ctxState ctx = Suspended then ctx\<lparr>ctxState := Running\<rparr> else ctx);
                   a2 = a1\<lparr>audioContext := Some ctx', analyser := Some ()\<rparr>;
                   bins = replicate (fftSize (aaConfig a) div 2) 0
               in if source a2 = None \<or> source a2 \<noteq> Some audioElement
                  then (if sourceOk env
                        then (None, a2\<lparr>source := Some audioElement, dataArray := Some bins\<rparr>)
                        else (Some AudioError, a2))
                  else (None, a2\<lparr>dataArray := Some bins\<rparr>))"

text \<open>
  The volume loop of \<open>analyze\<close>: \<open>sum\<close> (here \<open>sumv\<close>) and \<open>count\<close> run over the bins that are strictly
  above \<open>minDecibels\<close>.
\<close>

definition volumeStep :: "AudioAnalyzerConfig \<Rightarrow> real \<times> nat \<Rightarrow> real \<Rightarrow> real \<times> nat" where
  "volumeStep cfg acc x =
     (case acc of (sumv, count) \<Rightarrow>
        if x > minDecibels cfg
        then (let normalized = (x - minDecibels cfg) / (maxDecibels cfg - minDecibels cfg)
              in (sumv + normalized * normalized, count + 1))
        else (sumv, count))"

definition analyzeVolume :: "AudioAnalyzerConfig \<Rightarrow> real list \<Rightarrow> real" where
  "analyzeVolume cfg data =
     (case foldl (volumeStep cfg) (0, 0) data of (sumv, count) \<Rightarrow>
        if count > 0 then sqrt (sumv / real count) else 0)"

text \<open>
  The dominant-frequency loop: \<open>maxValue\<close> starts at \<open>-Infinity\<close> (\<open>None\<close>), \<open>maxIndex\<close> at 0;
  a later bin replaces the maximum only when strictly larger.
\<close>

definition dominantStep :: "real list \<Rightarrow> real option \<times> nat \<Rightarrow> nat \<Rightarrow> real option \<times> nat" where
  "dominantStep data acc i =
     (case acc of (maxValue, maxIndex) \<Rightarrow>
        if (case maxValue of None \<Rightarrow> True | Some m \<Rightarrow> data ! i > m)
        then (Some (data ! i), i) else (maxValue, maxIndex))"

definition analyzeMaxIndex :: "real list \<Rightarrow> nat" where
  "analyzeMaxIndex data = snd (foldl (dominantStep data) (None, 0) [0..<length data])"

text \<open>\<open>calculateVowelWeights\<close>: the formant table, the proximity of each vowel, the normalisation.\<close>

fun formantF1 :: "vowel \<Rightarrow> real" where
  "formantF1 AA = 700"
| "formantF1 E = 530"
| "formantF1 IH = 390"
| "formantF1 OH = 570"
| "formantF1 OU = 370"

fun formantF2 :: "vowel \<Rightarrow> real" where
  "formantF2 AA = 1220"
| "formantF2 E = 1840"
| "formantF2 IH = 1990"
| "formantF2 OH = 840"
| "formantF2 OU = 950"

definition proximity :: "real \<Rightarrow> vowel \<Rightarrow> real" where
  "proximity dominantFreq v =
     (let f1Diff = \<bar>dominantFreq - formantF1 v\<bar>;
          f2Diff = \<bar>dominantFreq - formantF2 v\<bar>
      in 1 / (1 + (f1Diff + f2Diff) / 1000))"

definition calculateVowelWeights :: "real \<Rightarrow> vowel \<Rightarrow> real" where
  "calculateVowelWeights dominantFreq =
     (let weights = foldl (\<lambda>w v. w(v := proximity dominantFreq v)) zeroWeights vowels;
          total = foldl (\<lambda>sumv w. sumv + w) 0 (map weights vowels)
      in if total > 0 then foldl (\<lambda>w v. w(v := w v / total)) weights vowels else weights)"

text \<open>
  \<open>analyze\<close>. \<open>getFloatFrequencyData\<close> overwrites the data array with the current spectrum,
  which the environment supplies as \<open>spectrum\<close>. Reading \<open>sampleRate\<close> of a null context throws.
  Two divisions give \<open>NaN\<close> or \<open>Infinity\<close> in JavaScript and 0 here: by the length of an empty
  spectrum, and by \<open>maxDecibels - minDecibels\<close> when the two are equal. The engine's analyzer
  has 128 bins and the range from -90 to -10, so neither occurs there.
\<close>

definition analyze ::
  "real list \<Rightarrow> AudioAnalyzer \<Rightarrow> (error + AudioAnalysisResult option) \<times> AudioAnalyzer" where
  "analyze spectrum a =
     (if analyser a = None \<or> dataArray a = None then (Inr None, a)
      else
        let a' = a\<lparr>dataArray := Some spectrum\<rparr>;
            vol = analyzeVolume (aaConfig a) spectrum;
            maxIndex = analyzeMaxIndex spectrum
        in case audioContext a of
             None \<Rightarrow> (Inl TypeError, a')
           | Some ctx \<Rightarrow>
               let nyquist = sampleRate ctx / 2;
                   dominantFreq = (real maxIndex / real (length spectrum)) * nyquist
               in (Inr (Some \<lparr>volume = vol, frequencies = spectrum,
                               dominantFrequency = dominantFreq,
                               vowelWeights = calculateVowelWeights dominantFreq\<rparr>), a'))"

text \<open>\<open>dispose\<close>: a context that is already closed is kept; everything else becomes null.\<close>

definition dispose :: "AudioAnalyzer \<Rightarrow> AudioAnalyzer" where
  "dispose a =
     (let a1 = (if source a \<noteq> None then a\<lparr>source := None\<rparr> else a);
          a2 = (if analyser a1 \<noteq> None then a1\<lparr>analyser := None\<rparr> else a1);
          a3 = (case audioContext a2 of
                  Some ctx \<Rightarrow> if ctxState ctx \<noteq> Closed then a2\<lparr>audioContext := None\<rparr> else a2
                | None \<Rightarrow> a2)
      in a3\<lparr>dataArray := None\<rparr>)"

definition isInitialized :: "AudioAnalyzer \<Rightarrow> bool" where
  "isInitialized a = (audioContext a \<noteq> None \<and> analyser a \<noteq> None \<and> source a \<noteq> None)"

section \<open>MorphMapper.ts\<close>

text \<open>
  A skinned mesh of the avatar's scene. \<open>morphTargetDictionary\<close> is an object from channel
  names to indices, listed in \<open>Object.entries\<close> order; \<open>morphTargetInfluences\<close> is a
  JavaScript array, modelled as a finite map from indices to numbers, so that a write at any
  index succeeds as it does in JavaScript. Both are optional in three.js.
\<close>

record Mesh =
  morphTargetDictionary :: "(string \<times> nat) list option"
  morphTargetInfluences :: "(nat \<Rightarrow> real option) option"

text \<open>
  The expression-weight interface \<open>{ setValue(name, weight), update() }\<close> and the avatar's
  \<open>update(delta)\<close> belong to the avatar library. The model remembers the last weight passed
  to \<open>setValue\<close> for each name and counts the calls of the two \<open>update\<close> methods; what the
  library does with them is not part of the repository.
\<close>

record ExpressionManager =
  exprValues :: "string \<Rightarrow> real option"
  exprUpdates :: nat

record VRM =
  meshes :: "Mesh list"
  expressionManager :: "ExpressionManager option"
  vrmUpdates :: nat

definition setValue :: "string \<Rightarrow> real \<Rightarrow> ExpressionManager \<Rightarrow> ExpressionManager" where
  "setValue name weight em = em\<lparr>exprValues := (exprValues em)(name \<mapsto> weight)\<rparr>"

definition exprUpdate :: "ExpressionManager \<Rightarrow> ExpressionManager" where
  "exprUpdate em = em\<lparr>exprUpdates := exprUpdates em + 1\<rparr>"

definition vrmUpdate :: "VRM \<Rightarrow> VRM" where
  "vrmUpdate vrm = vrm\<lparr>vrmUpdates := vrmUpdates vrm + 1\<rparr>"

record MorphMapperConfig =
  useVRCMorphs :: bool
  useExpressions :: bool

text \<open>
  \<open>morphTargetMap\<close> is a \<open>Map\<close> in insertion order. A target \<open>{ mesh, index }\<close> refers to a
  mesh of the bound avatar by its position in the scene traversal.
\<close>

type_synonym target = "nat \<times> nat"

record MorphMapper =
  mmVrm :: "VRM option"
  mmConfig :: MorphMapperConfig
  morphTargetMap :: "(string \<times> target list) list"

definition vrcVowelMorphs :: "string list" where
  "vrcVowelMorphs = [''vrc.v_aa'', ''vrc.v_e'', ''vrc.v_ih'', ''vrc.v_oh'', ''vrc.v_ou'']"

definition alternativeMorphPatterns :: "string list" where
  "alternativeMorphPatterns =
     [''mouth'', ''lip'', ''jaw'', ''teeth'', ''tongue'',
      ''aa'', ''ah'', ''ch'', ''dd'', ''e'', ''ee'', ''ff'', ''ih'', ''kk'',
      ''nn'', ''oh'', ''ou'', ''pp'', ''rr'', ''sil'', ''ss'', ''th'']"

definition newMorphMapper :: "MorphMapperConfig \<Rightarrow> MorphMapper" where
  "newMorphMapper cfg = \<lparr>mmVrm = None, mmConfig = cfg, morphTargetMap = []\<rparr>"

text \<open>\<open>buildMorphTargetMap\<close>: every dictionary entry of every mesh that has both a dictionary
  and influences is pushed onto the list of its channel name.\<close>

definition pushTarget ::
  "string \<Rightarrow> target \<Rightarrow> (string \<times> target list) list \<Rightarrow> (string \<times> target list) list" where
  "pushTarget morphName t tm =
     (case map_of tm morphName of
        None \<Rightarrow> AList.update morphName [t] tm
      | Some ts \<Rightarrow> AList.update morphName (ts @ [t]) tm)"

definition buildMeshStep ::
  "Mesh list \<Rightarrow> (string \<times> target list) list \<Rightarrow> nat \<Rightarrow> (string \<times> target list) list" where
  "buildMeshStep ms tm mid =
     (case morphTargetDictionary (ms ! mid) of
        None \<Rightarrow> tm
      | Some dict \<Rightarrow>
          if morphTargetInfluences (ms ! mid) = None then tm
          else foldl (\<lambda>tm' entry. pushTarget (fst entry) (mid, snd entry) tm') tm dict)"

definition buildMorphTargetMap :: "MorphMapper \<Rightarrow> MorphMapper" where
  "buildMorphTargetMap m =
     (case mmVrm m of
        None \<Rightarrow> m
      | Some vrm \<Rightarrow>
          m\<lparr>morphTargetMap := foldl (buildMeshStep (meshes vrm)) [] [0..<length (meshes vrm)]\<rparr>)"

definition mapperSetVRM :: "VRM \<Rightarrow> MorphMapper \<Rightarrow> MorphMapper" where
  "mapperSetVRM vrm m = buildMorphTargetMap (m\<lparr>mmVrm := Some vrm\<rparr>)"

text \<open>
  The write that every strategy performs on a target:
  \<open>if (mesh.morphTargetInfluences) mesh.morphTargetInfluences[index] = value\<close>.
\<close>

definition setInfluence :: "nat \<Rightarrow> nat \<Rightarrow> real \<Rightarrow> Mesh list \<Rightarrow> Mesh list" where
  "setInfluence mid index val ms =
     (if mid < length ms
      then (case morphTargetInfluences (ms ! mid) of
              None \<Rightarrow> ms
            | Some infl \<Rightarrow>
                ms[mid := (ms ! mid)\<lparr>morphTargetInfluences := Some (infl(index \<mapsto> val))\<rparr>])
      else ms)"

definition writeTargets :: "target list \<Rightarrow> real \<Rightarrow> Mesh list \<Rightarrow> Mesh list" where
  "writeTargets targets val ms = foldl (\<lambda>ms' t. setInfluence (fst t) (snd t) val ms') ms targets"

definition readInfluence :: "Mesh list \<Rightarrow> nat \<Rightarrow> nat \<Rightarrow> real option" where
  "readInfluence ms mid index =
     (if mid < length ms
      then (case morphTargetInfluences (ms ! mid) of None \<Rightarrow> None | Some infl \<Rightarrow> infl index)
      else None)"

text \<open>Strategy 1, \<open>applyVRCMorphs\<close>.\<close>

fun vrcMapping :: "vowel \<Rightarrow> string" where
  "vrcMapping AA = ''vrc.v_aa''"
| "vrcMapping E = ''vrc.v_e''"
| "vrcMapping IH = ''vrc.v_ih''"
| "vrcMapping OH = ''vrc.v_oh''"
| "vrcMapping OU = ''vrc.v_ou''"

definition hasVrcMorphs :: "Mesh \<Rightarrow> bool" where
  "hasVrcMorphs mesh =
     list_ex (\<lambda>vrcMorph. case morphTargetDictionary mesh of
                            None \<Rightarrow> False
                          | Some dict \<Rightarrow> map_of dict vrcMorph \<noteq> None) vrcVowelMorphs"

definition vrcTargetStep :: "real \<Rightarrow> bool \<times> Mesh list \<Rightarrow> target \<Rightarrow> bool \<times> Mesh list" where
  "vrcTargetStep weight acc t =
     (if fst t < length (snd acc) \<and> hasVrcMorphs (snd acc ! fst t)
         \<and> morphTargetInfluences (snd acc ! fst t) \<noteq> None
      then (True, setInfluence (fst t) (snd t) weight (snd acc))
      else acc)"

definition vrcVowelStep ::
  "(string \<times> target list) list \<Rightarrow> (vowel \<Rightarrow> real) \<Rightarrow> bool \<times> Mesh list \<Rightarrow> vowel
     \<Rightarrow> bool \<times> Mesh list" where
  "vrcVowelStep tm vowelWts acc v =
     (case map_of tm (vrcMapping v) of
        None \<Rightarrow> acc
      | Some targets \<Rightarrow> foldl (vrcTargetStep (vowelWts v)) acc targets)"

definition applyVRCMorphs ::
  "(string \<times> target list) list \<Rightarrow> (vowel \<Rightarrow> real) \<Rightarrow> Mesh list \<Rightarrow> bool \<times> Mesh list" where
  "applyVRCMorphs tm vowelWts ms = foldl (vrcVowelStep tm vowelWts) (False, ms) vowels"

text \<open>Strategy 2, \<open>applyExpressions\<close>.\<close>

fun expressionMapping :: "vowel \<Rightarrow> string" where
  "expressionMapping AA = ''aa''"
| "expressionMapping E = ''e''"
| "expressionMapping IH = ''i''"
| "expressionMapping OH = ''o''"
| "expressionMapping OU = ''u''"

definition applyExpressions :: "(vowel \<Rightarrow> real) \<Rightarrow> ExpressionManager \<Rightarrow> ExpressionManager" where
  "applyExpressions vowelWts em =
     exprUpdate (foldl (\<lambda>em' v. setValue (expressionMapping v) (vowelWts v) em') em vowels)"

text \<open>
  Strategy 3, \<open>applyAlternativeMorphs\<close>. \<open>toLowerCase\<close> acts on the ASCII letters; the model's
  strings are byte strings and other bytes are left as they are. \<open>includesStr\<close> is
  \<open>String.prototype.includes\<close>, substring containment.
\<close>

definition lowerChar :: "char \<Rightarrow> char" where
  "lowerChar c =
     (let n = (of_char c :: nat) in if 65 \<le> n \<and> n \<le> 90 then char_of (n + 32) else c)"

definition toLowerCase :: "string \<Rightarrow> string" where
  "toLowerCase s = map lowerChar s"

fun includesStr :: "string \<Rightarrow> string \<Rightarrow> bool" where
  "includesStr [] pat = (pat = [])"
| "includesStr (c # cs) pat = (take (length pat) (c # cs) = pat \<or> includesStr cs pat)"

definition mouthValueOf :: "(vowel \<Rightarrow> real) \<Rightarrow> real" where
  "mouthValueOf vowelWts = Max (set (map vowelWts vowels))"

definition alternativeNameStep ::
  "string \<Rightarrow> real \<Rightarrow> Mesh list \<Rightarrow> string \<times> target list \<Rightarrow> Mesh list" where
  "alternativeNameStep pat mouthValue ms entry =
     (if includesStr (toLowerCase (fst entry)) pat
      then writeTargets (snd entry) (mouthValue * (1 / 2)) ms
      else ms)"

definition applyAlternativeMorphs ::
  "(string \<times> target list) list \<Rightarrow> (vowel \<Rightarrow> real) \<Rightarrow> Mesh list \<Rightarrow> Mesh list" where
  "applyAlternativeMorphs tm vowelWts ms =
     (let mouthValue = mouthValueOf vowelWts
      in foldl (\<lambda>ms' pat. foldl (alternativeNameStep pat mouthValue) ms' tm)
           ms alternativeMorphPatterns)"

text \<open>\<open>applyVowelWeights\<close>: the strategies in priority order, each followed by the recompute.\<close>

definition applyVowelWeights :: "(vowel \<Rightarrow> real) \<Rightarrow> MorphMapper \<Rightarrow> MorphMapper" where
  "applyVowelWeights vowelWts m =
     (case mmVrm m of
        None \<Rightarrow> m
      | Some vrm \<Rightarrow>
          let r = (if useVRCMorphs (mmConfig m)
                   then applyVRCMorphs (morphTargetMap m) vowelWts (meshes vrm)
                   else (False, meshes vrm));
              vrcMorphsApplied = fst r;
              vrm1 = vrm\<lparr>meshes := snd r\<rparr>
          in if vrcMorphsApplied then m\<lparr>mmVrm := Some (vrmUpdate vrm1)\<rparr>
             else
               case (if useExpressions (mmConfig m) then expressionManager vrm1 else None) of
                 Some em \<Rightarrow>
                   m\<lparr>mmVrm := Some (vrmUpdate
                          (vrm1\<lparr>expressionManager := Some (applyExpressions vowelWts em)\<rparr>))\<rparr>
               | None \<Rightarrow>
                   m\<lparr>mmVrm := Some (vrmUpdate
                          (vrm1\<lparr>meshes :=
                             applyAlternativeMorphs (morphTargetMap m) vowelWts (meshes vrm1)\<rparr>))\<rparr>)"

text \<open>\<open>reset\<close>.\<close>

definition resetNameStep :: "(string \<times> target list) list \<Rightarrow> Mesh list \<Rightarrow> string \<Rightarrow> Mesh list" where
  "resetNameStep tm ms morphName =
     (case map_of tm morphName of None \<Rightarrow> ms | Some targets \<Rightarrow> writeTargets targets 0 ms)"

definition resetExpressions :: "ExpressionManager \<Rightarrow> ExpressionManager" where
  "resetExpressions em =
     exprUpdate (foldl (\<lambda>em' expr. setValue expr 0 em') em [''aa'', ''e'', ''i'', ''o'', ''u''])"

definition reset :: "MorphMapper \<Rightarrow> MorphMapper" where
  "reset m =
     (case mmVrm m of
        None \<Rightarrow> m
      | Some vrm \<Rightarrow>
          let ms = foldl (resetNameStep (morphTargetMap m)) (meshes vrm) vrcVowelMorphs;
              em = (case expressionManager vrm of
                      None \<Rightarrow> None
                    | Some em0 \<Rightarrow> Some (resetExpressions em0))
          in m\<lparr>mmVrm := Some (vrmUpdate (vrm\<lparr>meshes := ms, expressionManager := em\<rparr>))\<rparr>)"

definition getAvailableMorphs :: "MorphMapper \<Rightarrow> string list" where
  "getAvailableMorphs m = map fst (morphTargetMap m)"

definition hasVRCMorphs :: "MorphMapper \<Rightarrow> bool" where
  "hasVRCMorphs m = list_ex (\<lambda>morph. map_of (morphTargetMap m) morph \<noteq> None) vrcVowelMorphs"

definition setMorphTarget :: "string \<Rightarrow> real \<Rightarrow> MorphMapper \<Rightarrow> bool \<times> MorphMapper" where
  "setMorphTarget morphName val m =
     (case map_of (morphTargetMap m) morphName of
        None \<Rightarrow> (False, m)
      | Some targets \<Rightarrow>
          (True, m\<lparr>mmVrm := map_option
                     (\<lambda>vrm. vrmUpdate (vrm\<lparr>meshes :=
                                writeTargets targets (max 0 (min 1 val)) (meshes vrm)\<rparr>))
                     (mmVrm m)\<rparr>))"

section \<open>LipSyncEngine.ts\<close>

text \<open>
  \<open>customMorphMappings\<close> is stored and handed to the mapper, and read by no code; it is left
  out. A partial configuration is a record of optional fields, \<open>None\<close> for an absent key.
\<close>

record LipSyncConfig =
  sensitivity :: real
  smoothing :: real
  minVolume :: real
  updateInterval :: real

record LipSyncConfigPartial =
  sensitivityOpt :: "real option"
  smoothingOpt :: "real option"
  minVolumeOpt :: "real option"
  updateIntervalOpt :: "real option"

text \<open>
  The engine and its mapper hold the same avatar object. The model keeps the object in the
  mapper (\<open>mmVrm\<close>); the engine's own field \<open>vrm\<close> is only ever tested against null, and
  \<open>vrmBound\<close> is that test.
\<close>

record LipSyncEngine =
  vrmBound :: bool
  audioAnalyzer :: AudioAnalyzer
  morphMapper :: MorphMapper
  lsConfig :: LipSyncConfig
  animationFrame :: nat
  isRunning :: bool
  smoothedWeights :: "vowel \<Rightarrow> real"
  lastUpdateTime :: real

definition engineAnalyzerConfig :: "real \<Rightarrow> AudioAnalyzerConfig" where
  "engineAnalyzerConfig sm =
     \<lparr>fftSize = 256, smoothingTimeConstant = sm, minDecibels = - 90, maxDecibels = - 10\<rparr>"

definition newLipSyncEngine :: "LipSyncConfigPartial \<Rightarrow> LipSyncEngine" where
  "newLipSyncEngine config =
     (let cfg = \<lparr>sensitivity = (case sensitivityOpt config of Some x \<Rightarrow> x | None \<Rightarrow> fl (7 / 10)),
                 smoothing = (case smoothingOpt config of Some x \<Rightarrow> x | None \<Rightarrow> fl (8 / 10)),
                 minVolume = (case minVolumeOpt config of Some x \<Rightarrow> x | None \<Rightarrow> 10),
                 updateInterval = (case updateIntervalOpt config of Some x \<Rightarrow> x | None \<Rightarrow> 16)\<rparr>
      in \<lparr>vrmBound = False,
          audioAnalyzer = newAudioAnalyzer (engineAnalyzerConfig (smoothing cfg)),
          morphMapper = newMorphMapper \<lparr>useVRCMorphs = True, useExpressions = True\<rparr>,
          lsConfig = cfg,
          animationFrame = 0,
          isRunning = False,
          smoothedWeights = zeroWeights,
          lastUpdateTime = 0\<rparr>)"

definition setVRM :: "VRM \<Rightarrow> LipSyncEngine \<Rightarrow> LipSyncEngine" where
  "setVRM vrm s = s\<lparr>vrmBound := True, morphMapper := mapperSetVRM vrm (morphMapper s)\<rparr>"

text \<open>\<open>stop\<close>. Cancelling the animation frame is the browser's part; the handle is cleared.\<close>

definition stop :: "LipSyncEngine \<Rightarrow> LipSyncEngine" where
  "stop s =
     (let s1 = s\<lparr>isRunning := False\<rparr>;
          s2 = (if animationFrame s1 \<noteq> 0 then s1\<lparr>animationFrame := 0\<rparr> else s1);
          s3 = s2\<lparr>morphMapper := reset (morphMapper s2)\<rparr>;
          s4 = s3\<lparr>smoothedWeights := foldl (\<lambda>sw k. sw(k := 0)) (smoothedWeights s3) vowels\<rparr>
      in s4\<lparr>audioAnalyzer := dispose (audioAnalyzer s4)\<rparr>)"

text \<open>
  \<open>lerp\<close>, \<open>smoothToSilence\<close> and \<open>processLipSync\<close>, each operation rounded: in \<open>lerp\<close> the
  difference, the product and the sum; in the callers the factor \<open>1 - smoothing\<close>, the
  products \<open>volume * 100\<close>, \<open>volume * sensitivity\<close> and \<open>weight * scaledVolume\<close>.
\<close>

definition lerp :: "real \<Rightarrow> real \<Rightarrow> real \<Rightarrow> real" where
  "lerp start end' factor = fl (start + fl (fl (end' - start) * factor))"

definition smoothToSilence :: "LipSyncEngine \<Rightarrow> LipSyncEngine" where
  "smoothToSilence s =
     (let sw = foldl (\<lambda>sw' v. sw'(v := lerp (sw' v) 0 (fl (1 - smoothing (lsConfig s)))))
                 (smoothedWeights s) vowels
      in s\<lparr>smoothedWeights := sw, morphMapper := applyVowelWeights sw (morphMapper s)\<rparr>)"

definition processLipSync :: "AudioAnalysisResult \<Rightarrow> LipSyncEngine \<Rightarrow> LipSyncEngine" where
  "processLipSync analysis s =
     (if fl (volume analysis * 100) < minVolume (lsConfig s) then smoothToSilence s
      else
        let scaledVolume = min 1 (fl (volume analysis * sensitivity (lsConfig s)));
            sw = foldl (\<lambda>sw' v. sw'(v := lerp (sw' v) (fl (vowelWeights analysis v * scaledVolume))
                                            (fl (1 - smoothing (lsConfig s)))))
                   (smoothedWeights s) vowels
        in s\<lparr>smoothedWeights := sw, morphMapper := applyVowelWeights sw (morphMapper s)\<rparr>)"

text \<open>
  One call of \<open>animate\<close>. The browser supplies the time \<open>performance.now()\<close>, the handle that
  \<open>requestAnimationFrame\<close> returns and the spectrum the analyser node holds at that moment.
\<close>

record Tick =
  tickNow :: real
  tickHandle :: nat
  tickSpectrum :: "real list"

definition animate :: "Tick \<Rightarrow> LipSyncEngine \<Rightarrow> error option \<times> LipSyncEngine" where
  "animate tick s =
     (if \<not> isRunning s then (None, s)
      else
        let s1 = s\<lparr>animationFrame := tickHandle tick\<rparr>
        in if tickNow tick - lastUpdateTime s1 < updateInterval (lsConfig s1) then (None, s1)
           else
             let s2 = s1\<lparr>lastUpdateTime := tickNow tick\<rparr>;
                 r = analyze (tickSpectrum tick) (audioAnalyzer s2);
                 s3 = s2\<lparr>audioAnalyzer := snd r\<rparr>
             in case fst r of
                  Inl e \<Rightarrow> (Some e, s3)
                | Inr None \<Rightarrow> (None, s3)
                | Inr (Some analysis) \<Rightarrow> (None, processLipSync analysis s3))"

text \<open>
  \<open>start\<close>, with the await of \<open>initialize\<close> taken as one step: no other call of the
  engine runs while it waits. A rejection of \<open>initialize\<close> or an exception of the first
  \<open>animate\<close> is caught and gives \<open>false\<close>.
\<close>

definition start ::
  "nat \<Rightarrow> BrowserAudio \<Rightarrow> Tick \<Rightarrow> LipSyncEngine \<Rightarrow> bool \<times> LipSyncEngine" where
  "start audioElement env tick s =
     (if \<not> vrmBound s then (False, s)
      else
        let s1 = (if isRunning s then stop s else s);
            r = initialize audioElement env (audioAnalyzer s1);
            s2 = s1\<lparr>audioAnalyzer := snd r\<rparr>
        in case fst r of
             Some e \<Rightarrow> (False, s2)
           | None \<Rightarrow>
               (case animate tick (s2\<lparr>isRunning := True\<rparr>) of
                  (Some e, s3) \<Rightarrow> (False, s3)
                | (None, s3) \<Rightarrow> (True, s3)))"

text \<open>\<open>getStatus\<close>.\<close>

fun vowelKey :: "vowel \<Rightarrow> string" where
  "vowelKey AA = ''aa''"
| "vowelKey E = ''e''"
| "vowelKey IH = ''ih''"
| "vowelKey OH = ''oh''"
| "vowelKey OU = ''ou''"

record LipSyncStatus =
  isActive :: bool
  currentVolume :: real
  currentVowel :: string
  statusWeights :: "vowel \<Rightarrow> real"

definition getStatus :: "LipSyncEngine \<Rightarrow> LipSyncStatus" where
  "getStatus s =
     \<lparr>isActive = isRunning s,
      currentVolume = foldl (\<lambda>sumv w. sumv + w) 0 (map (smoothedWeights s) vowels),
      currentVowel = fst (foldl (\<lambda>mx v. if smoothedWeights s v > snd mx
                                          then (vowelKey v, smoothedWeights s v) else mx)
                            (''sil'', 0) vowels),
      statusWeights = smoothedWeights s\<rparr>"

text \<open>
  \<open>updateConfig\<close>: \<open>Object.assign\<close> copies the keys that are present; a present \<open>smoothing\<close>
  replaces the analyzer by a new one, which nothing initializes.
\<close>

definition assignConfig :: "LipSyncConfigPartial \<Rightarrow> LipSyncConfig \<Rightarrow> LipSyncConfig" where
  "assignConfig config cfg =
     \<lparr>sensitivity = (case sensitivityOpt config of Some x \<Rightarrow> x | None \<Rightarrow> sensitivity cfg),
      smoothing = (case smoothingOpt config of Some x \<Rightarrow> x | None \<Rightarrow> smoothing cfg),
      minVolume = (case minVolumeOpt config of Some x \<Rightarrow> x | None \<Rightarrow> minVolume cfg),
      updateInterval = (case updateIntervalOpt config of Some x \<Rightarrow> x | None \<Rightarrow> updateInterval cfg)\<rparr>"

definition updateConfig :: "LipSyncConfigPartial \<Rightarrow> LipSyncEngine \<Rightarrow> LipSyncEngine" where
  "updateConfig config s =
     (let s1 = s\<lparr>lsConfig := assignConfig config (lsConfig s)\<rparr>
      in if smoothingOpt config \<noteq> None
         then s1\<lparr>audioAnalyzer := newAudioAnalyzer (engineAnalyzerConfig (smoothing (lsConfig s1)))\<rparr>
         else s1)"

text \<open>
  \<open>testVowel\<close>. \<open>vowel in weights\<close> holds for the five keys (and for property names that every
  JavaScript object inherits, which the model leaves out).
\<close>

definition vowelOfKey :: "string \<Rightarrow> vowel option" where
  "vowelOfKey k = map_of (map (\<lambda>v. (vowelKey v, v)) vowels) k"

definition testVowel :: "string \<Rightarrow> real \<Rightarrow> LipSyncEngine \<Rightarrow> LipSyncEngine" where
  "testVowel vowelName weight s =
     (if \<not> vrmBound s then s
      else
        let weights = (case vowelOfKey vowelName of
                         Some v \<Rightarrow> zeroWeights(v := weight)
                       | None \<Rightarrow> zeroWeights)
        in s\<lparr>morphMapper := applyVowelWeights weights (morphMapper s)\<rparr>)"

text \<open>
  \<open>runTestSequence\<close> is an async function: between two awaited timeouts it performs one
  step, a \<open>testVowel\<close> call or the \<open>reset\<close> of the mapper, and while it waits any other call
  of the engine can run. The steps are listed in the order of the two nested loops; the
  whole sequence without any other call in between is \<open>runTestSequence\<close>.
\<close>

datatype testStep = TestVowel string real | ResetMapper

definition rampWeight :: "nat \<Rightarrow> real" where
  "rampWeight i = (if i \<le> 10 then real i / 10 else (20 - real i) / 10)"

definition testSequenceSteps :: "testStep list" where
  "testSequenceSteps =
     concat (map (\<lambda>vowelName. map (\<lambda>i. TestVowel vowelName (rampWeight i)) [0..<21] @ [ResetMapper])
               (map vowelKey vowels))"

fun runTestStep :: "LipSyncEngine \<Rightarrow> testStep \<Rightarrow> LipSyncEngine" where
  "runTestStep s (TestVowel vowelName weight) = testVowel vowelName weight s"
| "runTestStep s ResetMapper = s\<lparr>morphMapper := reset (morphMapper s)\<rparr>"

definition runTestSteps :: "testStep list \<Rightarrow> LipSyncEngine \<Rightarrow> LipSyncEngine" where
  "runTestSteps steps s = foldl runTestStep s steps"

definition runTestSequence :: "LipSyncEngine \<Rightarrow> LipSyncEngine" where
  "runTestSequence s = runTestSteps testSequenceSteps s"

section \<open>Notions of the specification and example inputs\<close>

text \<open>
  The volume as the specification words it: the root mean square of the normalised
  magnitudes of the bins above the noise floor, and 0 when there is no such bin.
\<close>

definition aboveFloor :: "AudioAnalyzerConfig \<Rightarrow> real list \<Rightarrow> real list" where
  "aboveFloor cfg data = filter (\<lambda>x. x > minDecibels cfg) data"

definition normalizedBin :: "AudioAnalyzerConfig \<Rightarrow> real \<Rightarrow> real" where
  "normalizedBin cfg x = (x - minDecibels cfg) / (maxDecibels cfg - minDecibels cfg)"

definition rmsAboveFloor :: "AudioAnalyzerConfig \<Rightarrow> real list \<Rightarrow> real" where
  "rmsAboveFloor cfg data =
     (if aboveFloor cfg data = [] then 0
      else sqrt ((\<Sum>x\<leftarrow>aboveFloor cfg data. (normalizedBin cfg x)\<^sup>2)
                 / real (length (aboveFloor cfg data))))"

text \<open>
  A browser whose calls all succeed, an analyzer with the default configuration
  initialized in it, and
  two spectra of 128 bins: one bin at 0 dB and the others below the floor, and one bin at
  -50 dB and the others below the floor.
\<close>

definition browserContext :: AudioContext where
  "browserContext = \<lparr>ctxState = Running, sampleRate = 48000\<rparr>"

definition browser :: BrowserAudio where
  "browser = \<lparr>newContext = Some browserContext, resumeOk = True, sourceOk = True\<rparr>"

definition readyAnalyzer :: AudioAnalyzer where
  "readyAnalyzer = snd (initialize 0 browser (newAudioAnalyzer defaultAnalyzerConfig))"

definition loudSpectrum :: "real list" where
  "loudSpectrum = 0 # replicate 127 (- 100)"

definition speechSpectrum :: "real list" where
  "speechSpectrum = (- 50) # replicate 127 (- 100)"

definition silentSpectrum :: "real list" where
  "silentSpectrum = replicate 128 (- 100)"


definition targetWeight :: "AudioAnalysisResult \<Rightarrow> LipSyncEngine \<Rightarrow> vowel \<Rightarrow> real" where
  "targetWeight a s v = fl (vowelWeights a v * min 1 (fl (volume a * sensitivity (lsConfig s))))"

text \<open>
  Example engines and frames. \<open>speechFrame\<close> and \<open>silentFrame\<close> are the frames that
  \<open>analyze\<close> returns for \<open>speechSpectrum\<close> and \<open>silentSpectrum\<close>. \<open>stiffEngine\<close> is
  constructed with smoothing 1, \<open>crispEngine\<close> with smoothing 0 and sensitivity 1.
  \<open>frameAt x\<close> is a frame of volume 1 whose \<open>aa\<close> weight is the literal \<open>x\<close> and whose other
  weights are 0; \<open>crispLow\<close> is \<open>crispEngine\<close> after the frame at 0.31.
\<close>

definition noConfig :: LipSyncConfigPartial where
  "noConfig =
     \<lparr>sensitivityOpt = None, smoothingOpt = None, minVolumeOpt = None, updateIntervalOpt = None\<rparr>"

definition defaultEngine :: LipSyncEngine where
  "defaultEngine = newLipSyncEngine noConfig"





definition speechFrame :: AudioAnalysisResult where
  "speechFrame = \<lparr>volume = 1 / 2, frequencies = speechSpectrum, dominantFrequency = 0,
                   vowelWeights = calculateVowelWeights 0\<rparr>"


text \<open>
  Channel sinks. A target \<open>(mid, idx)\<close> has a sink in a mesh list when the mesh exists and
  has influences. \<open>vrcTargets\<close> lists the targets that the map gives for the five direct
  vowel-channel names, \<open>matchedTargets\<close> those of the channels whose lower-cased name
  contains a pattern. \<open>channelState\<close> is what the mapper holds in its channels: the meshes
  and the expression weights, without the counts of recompute calls. \<open>strategy1\<close> is the
  first block of \<open>applyVowelWeights\<close>: the flag \<open>vrcMorphsApplied\<close> and the meshes after it.
\<close>

definition hasSink :: "Mesh list \<Rightarrow> nat \<Rightarrow> bool" where
  "hasSink ms mid = (mid < length ms \<and> morphTargetInfluences (ms ! mid) \<noteq> None)"

definition targetsOf :: "(string \<times> target list) list \<Rightarrow> string \<Rightarrow> target list" where
  "targetsOf tm morphName = (case map_of tm morphName of None \<Rightarrow> [] | Some ts \<Rightarrow> ts)"

definition vrcTargets :: "(string \<times> target list) list \<Rightarrow> target list" where
  "vrcTargets tm = concat (map (targetsOf tm) vrcVowelMorphs)"

definition canonicalExpressions :: "string list" where
  "canonicalExpressions = [''aa'', ''e'', ''i'', ''o'', ''u'']"

definition matchedTargets :: "(string \<times> target list) list \<Rightarrow> string \<Rightarrow> target list" where
  "matchedTargets tm pat =
     concat (map (\<lambda>entry. if includesStr (toLowerCase (fst entry)) pat then snd entry else []) tm)"


definition strategy1 :: "(vowel \<Rightarrow> real) \<Rightarrow> MorphMapper \<Rightarrow> VRM \<Rightarrow> bool \<times> Mesh list" where
  "strategy1 w m vrm =
     (if useVRCMorphs (mmConfig m) then applyVRCMorphs (morphTargetMap m) w (meshes vrm)
      else (False, meshes vrm))"

definition sinkOf :: "LipSyncEngine \<Rightarrow> nat \<Rightarrow> nat \<Rightarrow> real option" where
  "sinkOf s mid idx =
     (case mmVrm (morphMapper s) of
        None \<Rightarrow> None
      | Some vrm \<Rightarrow> readInfluence (meshes vrm) mid idx)"

text \<open>A run of animation-frame callbacks, each with what the browser supplies to it.\<close>

definition runTicks :: "Tick list \<Rightarrow> LipSyncEngine \<Rightarrow> LipSyncEngine" where
  "runTicks ticks s = foldl (\<lambda>s' tick. snd (animate tick s')) s ticks"

text \<open>
  Example avatars. \<open>vrcAvatar\<close> has one mesh with the five direct vowel channels and a
  channel \<open>mouth_open\<close>; \<open>plainAvatar\<close> has neither vowel channels nor an expression
  interface, only \<open>mouth_open\<close> and \<open>Brow_Up\<close>; \<open>exprAvatar\<close> is \<open>plainAvatar\<close> with an
  expression interface. All influences start at 0. The mappers are built by \<open>setVRM\<close>, with
  the configuration the engine uses, except \<open>exprOffMapper\<close>, whose \<open>useExpressions\<close> is off.
\<close>

definition zeroInfluences :: "nat \<Rightarrow> nat \<Rightarrow> real option" where
  "zeroInfluences n = (\<lambda>i. if i < n then Some 0 else None)"

definition faceMesh :: Mesh where
  "faceMesh = \<lparr>morphTargetDictionary = Some [(''vrc.v_aa'', 0), (''vrc.v_e'', 1), (''vrc.v_ih'', 2),
       (''vrc.v_oh'', 3), (''vrc.v_ou'', 4), (''mouth_open'', 5)],
     morphTargetInfluences = Some (zeroInfluences 6)\<rparr>"

definition vrcAvatar :: VRM where
  "vrcAvatar = \<lparr>meshes = [faceMesh], expressionManager = None, vrmUpdates = 0\<rparr>"

definition plainMesh :: Mesh where
  "plainMesh = \<lparr>morphTargetDictionary = Some [(''mouth_open'', 0), (''Brow_Up'', 1)],
     morphTargetInfluences = Some (zeroInfluences 2)\<rparr>"

definition plainAvatar :: VRM where
  "plainAvatar = \<lparr>meshes = [plainMesh], expressionManager = None, vrmUpdates = 0\<rparr>"

definition exprAvatar :: VRM where
  "exprAvatar = \<lparr>meshes = [plainMesh],
                  expressionManager = Some \<lparr>exprValues = Map.empty, exprUpdates = 0\<rparr>,
                  vrmUpdates = 0\<rparr>"

definition engineMapperConfig :: MorphMapperConfig where
  "engineMapperConfig = \<lparr>useVRCMorphs = True, useExpressions = True\<rparr>"

definition vrcMapper :: MorphMapper where
  "vrcMapper = mapperSetVRM vrcAvatar (newMorphMapper engineMapperConfig)"

definition plainMapper :: MorphMapper where
  "plainMapper = mapperSetVRM plainAvatar (newMorphMapper engineMapperConfig)"

definition exprMapper :: MorphMapper where
  "exprMapper = mapperSetVRM exprAvatar (newMorphMapper engineMapperConfig)"

definition exprOffMapper :: MorphMapper where
  "exprOffMapper = mapperSetVRM exprAvatar (newMorphMapper (engineMapperConfig\<lparr>useExpressions := False\<rparr>))"

definition oneHot :: "vowel \<Rightarrow> real" where
  "oneHot = zeroWeights(AA := 1)"

definition scenarioWeights :: "vowel \<Rightarrow> real" where
  "scenarioWeights = zeroWeights(AA := 8 / 10, OH := 2 / 10)"

text \<open>
  Example engines with an avatar: \<open>boundEngine\<close> is the default engine after \<open>setVRM\<close>,
  \<open>runningEngine\<close> the same after a successful \<open>start\<close> whose first tick hears
  \<open>speechSpectrum\<close>.
\<close>

definition firstTick :: Tick where
  "firstTick = \<lparr>tickNow = 1000, tickHandle = 1, tickSpectrum = speechSpectrum\<rparr>"

definition boundEngine :: LipSyncEngine where
  "boundEngine = setVRM vrcAvatar defaultEngine"

definition runningEngine :: LipSyncEngine where
  "runningEngine = snd (start 0 browser firstTick boundEngine)"


definition validPartial :: "LipSyncConfigPartial \<Rightarrow> bool" where
  "validPartial config =
     ((case sensitivityOpt config of None \<Rightarrow> True | Some x \<Rightarrow> 0 \<le> x)
      \<and> (case smoothingOpt config of None \<Rightarrow> True | Some x \<Rightarrow> 0 \<le> x \<and> x \<le> 1))"

inductive reachable :: "LipSyncEngine \<Rightarrow> bool" where
  constructed: "validPartial config \<Longrightarrow> reachable (newLipSyncEngine config)"
| bound: "reachable s \<Longrightarrow> reachable (setVRM vrm s)"
| started: "reachable s \<Longrightarrow> reachable (snd (start audioElement env tick s))"
| stopped: "reachable s \<Longrightarrow> reachable (stop s)"
| ticked: "reachable s \<Longrightarrow> reachable (snd (animate tick s))"
| configured: "reachable s \<Longrightarrow> validPartial config \<Longrightarrow> reachable (updateConfig config s)"
| tested: "reachable s \<Longrightarrow> reachable (runTestStep s step)"






text \<open>
  \<open>untilStart s s'\<close>: the engine gets from \<open>s\<close> to \<open>s'\<close> by any calls other than \<open>start\<close>:
  animation-frame callbacks, \<open>stop\<close>, \<open>updateConfig\<close>, \<open>setVRM\<close>, \<open>testVowel\<close> and the steps of
  the test sequence. An analyzer is uninitialised when it has neither an analyser node nor
  an audio context.
\<close>

inductive untilStart :: "LipSyncEngine \<Rightarrow> LipSyncEngine \<Rightarrow> bool" where
  same: "untilStart s s"
| tick: "untilStart s s' \<Longrightarrow> untilStart s (snd (animate tick s'))"
| stop: "untilStart s s' \<Longrightarrow> untilStart s (stop s')"
| configure: "untilStart s s' \<Longrightarrow> untilStart s (updateConfig config s')"
| bind: "untilStart s s' \<Longrightarrow> untilStart s (setVRM vrm s')"
| test: "untilStart s s' \<Longrightarrow> untilStart s (runTestStep s' step)"

definition uninitialised :: "AudioAnalyzer \<Rightarrow> bool" where
  "uninitialised a = (analyser a = None \<and> audioContext a = None)"

text \<open>
  \<open>faceMapper infl n\<close> is the mapper of \<open>vrcAvatar\<close> when the face mesh holds the
  influences \<open>infl\<close> and the avatar has been recomputed \<open>n\<close> times. \<open>midSequence\<close> is the
  engine after the first three steps of the test sequence. \<open>halfSmoothing\<close> is the partial
  configuration \<open>{ smoothing: 0.5 }\<close>, \<open>laterTick\<close> a tick one second after \<open>firstTick\<close>.
\<close>

definition faceMapper :: "(nat \<Rightarrow> real option) \<Rightarrow> nat \<Rightarrow> MorphMapper" where
  "faceMapper infl n =
     vrcMapper\<lparr>mmVrm := Some \<lparr>meshes = [faceMesh\<lparr>morphTargetInfluences := Some infl\<rparr>],
                               expressionManager = None, vrmUpdates = n\<rparr>\<rparr>"

definition midSequence :: LipSyncEngine where
  "midSequence = runTestSteps (take 3 testSequenceSteps) boundEngine"

definition halfSmoothing :: LipSyncConfigPartial where
  "halfSmoothing = noConfig\<lparr>smoothingOpt := Some (1 / 2)\<rparr>"

definition laterTick :: Tick where
  "laterTick = \<lparr>tickNow = 2000, tickHandle = 2, tickSpectrum = speechSpectrum\<rparr>"

section \<open>Powers of two\<close>

lemma pow2_pos [simp]: "0 < pow2 e"
  by (simp add: pow2_def)

lemma pow2_nonneg [simp]: "0 \<le> pow2 e"
  by (simp add: pow2_def)

lemma pow2_neq0 [simp]: "pow2 e \<noteq> 0"
  by (simp add: pow2_def)

lemma pow2_add: "pow2 (a + b) = pow2 a * pow2 b"
  by (simp add: pow2_def powr_add)

lemma pow2_0 [simp]: "pow2 0 = 1"
  by (simp add: pow2_def)

lemma pow2_diff: "pow2 (a - b) = pow2 a / pow2 b"
  by (simp add: pow2_def powr_diff)

lemma pow2_le_iff [simp]: "pow2 a \<le> pow2 b \<longleftrightarrow> a \<le> b"
  by (simp add: pow2_def)

lemma pow2_less_iff [simp]: "pow2 a < pow2 b \<longleftrightarrow> a < b"
  by (simp add: pow2_def)

lemma pow2_int: "pow2 (int n) = 2 ^ n"
  by (simp add: pow2_def powr_realpow)

lemma pow2_nat: "0 \<le> e \<Longrightarrow> pow2 e = 2 ^ nat e"
  using pow2_int [of "nat e"] by simp

lemma pow2_Suc: "pow2 (e + 1) = 2 * pow2 e"
  by (simp add: pow2_def powr_add)

section \<open>Binades\<close>

lemma binade_bounds:
  assumes "x \<noteq> 0"
  shows "pow2 (binade x) \<le> \<bar>x\<bar>" "\<bar>x\<bar> < pow2 (binade x + 1)"
proof -
  have pos: "0 < \<bar>x\<bar>" using assms by simp
  have "of_int (binade x) \<le> log 2 \<bar>x\<bar>" by (simp add: binade_def)
  then show "pow2 (binade x) \<le> \<bar>x\<bar>"
    using pos by (simp add: pow2_def le_log_iff)
  have "log 2 \<bar>x\<bar> < of_int (binade x + 1)" unfolding binade_def by linarith
  then show "\<bar>x\<bar> < pow2 (binade x + 1)"
    using pos unfolding pow2_def by (simp add: log_less_iff)
qed

lemma binade_eq:
  assumes "pow2 n \<le> \<bar>x\<bar>" "\<bar>x\<bar> < pow2 (n + 1)"
  shows "binade x = n"
proof -
  have pos: "0 < \<bar>x\<bar>" using assms(1) pow2_pos [of n] by linarith
  have "of_int n \<le> log 2 \<bar>x\<bar>" using assms(1) pos by (simp add: pow2_def le_log_iff)
  moreover have "log 2 \<bar>x\<bar> < of_int n + 1"
    using assms(2) pos by (simp add: pow2_def log_less_iff)
  ultimately show ?thesis unfolding binade_def by linarith
qed

lemma binade_ge:
  assumes "pow2 n \<le> \<bar>x\<bar>"
  shows "n \<le> binade x"
proof -
  have "0 < \<bar>x\<bar>" using assms pow2_pos [of n] by linarith
  then have "x \<noteq> 0" by simp
  then have "\<bar>x\<bar> < pow2 (binade x + 1)" by (rule binade_bounds)
  with assms have "pow2 n < pow2 (binade x + 1)" by linarith
  then show ?thesis by simp
qed

lemma binade_less:
  assumes "x \<noteq> 0" "\<bar>x\<bar> < pow2 n"
  shows "binade x < n"
proof -
  have "pow2 (binade x) \<le> \<bar>x\<bar>" using assms(1) by (rule binade_bounds)
  with assms(2) have "pow2 (binade x) < pow2 n" by linarith
  then show ?thesis by simp
qed

lemma binade_minus [simp]: "binade (- x) = binade x"
  by (simp add: binade_def)

lemma quantum_minus [simp]: "quantum (- x) = quantum x"
  by (simp add: quantum_def)

lemma quantum_pos [simp]: "0 < quantum x"
  by (simp add: quantum_def)

section \<open>Rounding to the nearest integer, ties to even\<close>

lemma roundEven_char:
  "\<bar>of_int (roundEven y) - y\<bar> < 1 / 2 \<or> (\<bar>of_int (roundEven y) - y\<bar> = 1 / 2 \<and> even (roundEven y))"
proof -
  define n where "n = \<lfloor>y\<rfloor>"
  define r where "r = y - of_int n"
  have r: "0 \<le> r" "r < 1" unfolding r_def n_def by linarith+
  consider "r < 1 / 2" | "1 / 2 < r" | "r = 1 / 2" "even n" | "r = 1 / 2" "odd n" by fastforce
  then show ?thesis
  proof cases
    case 1
    then have "roundEven y = n" by (simp add: roundEven_def Let_def n_def r_def)
    then have "of_int (roundEven y) - y = - r" by (simp add: r_def)
    then show ?thesis using 1 r by linarith
  next
    case 2
    then have "roundEven y = n + 1" by (simp add: roundEven_def Let_def n_def r_def)
    then have "of_int (roundEven y) - y = 1 - r" by (simp add: r_def)
    then show ?thesis using 2 r by linarith
  next
    case 3
    then have e: "roundEven y = n" by (simp add: roundEven_def Let_def n_def r_def)
    then have "of_int (roundEven y) - y = - r" by (simp add: r_def)
    then have "\<bar>of_int (roundEven y) - y\<bar> = 1 / 2" using 3(1) by linarith
    then show ?thesis using 3(2) e by simp
  next
    case 4
    then have e: "roundEven y = n + 1" by (simp add: roundEven_def Let_def n_def r_def)
    then have "of_int (roundEven y) - y = 1 - r" by (simp add: r_def)
    then have "\<bar>of_int (roundEven y) - y\<bar> = 1 / 2" using 4(1) by linarith
    then show ?thesis using 4(2) e by simp
  qed
qed

lemma int_apart: "(a::int) \<noteq> b \<Longrightarrow> 1 \<le> \<bar>(of_int a :: real) - of_int b\<bar>"
proof -
  assume "a \<noteq> b"
  then have "1 \<le> \<bar>a - b\<bar>" by linarith
  then have "(1::real) \<le> of_int \<bar>a - b\<bar>" by linarith
  then show ?thesis by simp
qed

lemma roundEven_unique:
  assumes "\<bar>of_int k - y\<bar> < 1 / 2 \<or> (\<bar>of_int k - y\<bar> = 1 / 2 \<and> even k)"
  shows "roundEven y = k"
proof (rule ccontr)
  let ?r = "roundEven y"
  assume ne: "?r \<noteq> k"
  have c: "\<bar>of_int ?r - y\<bar> < 1 / 2 \<or> (\<bar>of_int ?r - y\<bar> = 1 / 2 \<and> even ?r)"
    by (rule roundEven_char)
  have one: "1 \<le> \<bar>(of_int ?r :: real) - of_int k\<bar>" using ne by (rule int_apart)
  with c assms have eq: "\<bar>of_int ?r - y\<bar> = 1 / 2" "\<bar>of_int k - y\<bar> = 1 / 2" "even ?r" "even k"
    by linarith+
  then have "\<bar>(of_int ?r :: real) - of_int k\<bar> = 1" using one by linarith
  then have "(of_int \<bar>?r - k\<bar> :: real) = 1" by simp
  then have "\<bar>?r - k\<bar> = 1" by linarith
  then have "odd (?r - k)" by (metis odd_one dvd_abs_iff)
  with eq(3,4) show False by simp
qed

lemma roundEven_of_int [simp]: "roundEven (of_int k) = k"
  by (rule roundEven_unique) simp

lemma roundEven_minus: "roundEven (- y) = - roundEven y"
proof (rule roundEven_unique)
  have "\<bar>of_int (- roundEven y) - - y\<bar> = \<bar>of_int (roundEven y) - y\<bar>" by simp
  then show "\<bar>of_int (- roundEven y) - - y\<bar> < 1 / 2
     \<or> (\<bar>of_int (- roundEven y) - - y\<bar> = 1 / 2 \<and> even (- roundEven y))"
    using roundEven_char [of y] by simp
qed

lemma roundEven_half: "\<bar>of_int (roundEven y) - y\<bar> \<le> 1 / 2"
  using roundEven_char [of y] by linarith

lemma roundEven_nearest: "\<bar>of_int (roundEven y) - y\<bar> \<le> \<bar>of_int j - y\<bar>"
proof (cases "j = roundEven y")
  case True then show ?thesis by simp
next
  case False
  then have "1 \<le> \<bar>(of_int (roundEven y) :: real) - of_int j\<bar>"
    using int_apart [of "roundEven y" j] by simp
  with roundEven_half [of y] show ?thesis by linarith
qed

section \<open>Rounding to double precision\<close>

lemma fl_0 [simp]: "fl 0 = 0"
  by (simp add: fl_def)

lemma fl_minus: "fl (- x) = - fl x"
  by (simp add: fl_def roundEven_minus)

lemma quantum_eq: "quantum x = pow2 (max (binade x - 52) (- 1074))"
  by (simp add: quantum_def)

lemma abs_quantum [simp]: "\<bar>quantum x\<bar> = quantum x"
  by (simp add: abs_of_pos)

lemma quantum_neq0 [simp]: "quantum x \<noteq> 0"
  using quantum_pos [of x] by linarith

lemma quantum_nonneg [simp]: "0 \<le> quantum x"
  using quantum_pos [of x] by linarith


lemma pow2_not_le0 [simp]: "\<not> pow2 e \<le> 0"
  using pow2_pos [of e] by linarith

lemma pow2_split: "a \<le> b \<Longrightarrow> pow2 b = 2 ^ nat (b - a) * pow2 a"
proof -
  assume "a \<le> b"
  then have "pow2 b = pow2 ((b - a) + a)" by simp
  also have "\<dots> = pow2 (b - a) * pow2 a" by (rule pow2_add)
  also have "pow2 (b - a) = 2 ^ nat (b - a)" using \<open>a \<le> b\<close> by (simp add: pow2_nat)
  finally show ?thesis .
qed

lemma scaled_bound:
  assumes "x \<noteq> 0"
  shows "\<bar>x / quantum x\<bar> < 2 ^ 53"
proof -
  let ?e = "max (binade x - 52) (- 1074)"
  have "\<bar>x\<bar> < pow2 (binade x + 1)" using assms by (rule binade_bounds)
  also have "pow2 (binade x + 1) \<le> pow2 (?e + 53)" by simp
  also have "\<dots> = pow2 ?e * 2 ^ 53" using pow2_add [of ?e 53] by (simp add: pow2_nat)
  finally have "\<bar>x\<bar> < quantum x * 2 ^ 53" by (simp add: quantum_eq)
  then have "\<bar>x\<bar> / quantum x < 2 ^ 53"
    by (simp add: pos_divide_less_eq mult.commute)
  then show ?thesis by simp
qed

lemma fl_grid: "\<exists>k. \<bar>k\<bar> \<le> 2 ^ 53 \<and> fl x = of_int k * quantum x"
proof (cases "x = 0")
  case True
  then have "\<bar>0::int\<bar> \<le> 2 ^ 53 \<and> fl x = of_int 0 * quantum x" by simp
  then show ?thesis by blast
next
  case False
  let ?k = "roundEven (x / quantum x)"
  have "\<bar>of_int ?k - x / quantum x\<bar> \<le> 1 / 2" by (rule roundEven_half)
  with scaled_bound [OF False] have "\<bar>(of_int ?k :: real)\<bar> < 2 ^ 53 + 1" by linarith
  then have "(of_int \<bar>?k\<bar> :: real) < of_int (2 ^ 53 + 1)" by simp
  then have "\<bar>?k\<bar> < 2 ^ 53 + 1" by (simp only: of_int_less_iff)
  then have "\<bar>?k\<bar> \<le> 2 ^ 53" by simp
  moreover have "fl x = of_int ?k * quantum x" using False by (simp add: fl_def)
  ultimately show ?thesis by blast
qed

lemma on_grid_exact:
  assumes "x = of_int j * quantum x"
  shows "fl x = x"
proof (cases "x = 0")
  case True then show ?thesis by simp
next
  case False
  have "x / quantum x = of_int j" using assms quantum_pos [of x]
    by (metis nonzero_mult_div_cancel_right less_irrefl)
  then show ?thesis using False assms by (simp add: fl_def)
qed

lemma fl_exact:
  assumes e: "- 1074 \<le> e" and m: "\<bar>m\<bar> \<le> 2 ^ 53"
  shows "fl (of_int m * pow2 e) = of_int m * pow2 e"
proof (cases "m = 0")
  case True then show ?thesis by simp
next
  case False
  let ?x = "of_int m * pow2 e"
  let ?e' = "max (binade ?x - 52) (- 1074)"
  have x0: "?x \<noteq> 0" using False by simp
  have absx: "\<bar>?x\<bar> = of_int \<bar>m\<bar> * pow2 e" by (simp add: abs_mult)
  show ?thesis
  proof (cases "\<bar>m\<bar> = 2 ^ 53")
    case True
    then have "\<bar>?x\<bar> = 2 ^ 53 * pow2 e" by (simp add: absx)
    also have "\<dots> = pow2 (e + 53)" using pow2_add [of e 53] by (simp add: pow2_nat)
    finally have ax: "\<bar>?x\<bar> = pow2 (e + 53)" .
    have "binade ?x = e + 53"
      by (rule binade_eq) (simp_all add: ax)
    then have "max (binade ?x - 52) (- 1074) = e + 1" using e by simp
    then have q: "quantum ?x = pow2 (e + 1)" by (simp only: quantum_eq)
    have "m = 2 ^ 53 \<or> m = - (2 ^ 53)" using True by linarith
    then have "of_int m = (2::real) * of_int (m div 2)" by auto
    then have x2: "?x = of_int (m div 2) * (2 * pow2 e)" by simp
    have q2: "quantum ?x = 2 * pow2 e" by (simp only: q pow2_Suc)
    have "?x = of_int (m div 2) * quantum ?x" by (subst q2) (rule x2)
    then show ?thesis by (rule on_grid_exact)
  next
    case False
    with m have "\<bar>m\<bar> < 2 ^ 53" by linarith
    then have "(of_int \<bar>m\<bar> :: real) < 2 ^ 53" by (metis of_int_less_numeral_power_cancel_iff)
    then have "\<bar>?x\<bar> < 2 ^ 53 * pow2 e" by (simp add: absx)
    also have "\<dots> = pow2 (e + 53)" using pow2_add [of e 53] by (simp add: pow2_nat)
    finally have "binade ?x < e + 53" using x0 by (intro binade_less)
    then have le: "?e' \<le> e" using e by simp
    have "?x = of_int m * (2 ^ nat (e - ?e') * pow2 ?e')" using pow2_split [OF le] by simp
    then have "?x = of_int (m * 2 ^ nat (e - ?e')) * quantum ?x" by (simp add: quantum_eq)
    then show ?thesis by (rule on_grid_exact)
  qed
qed

lemma isDouble_fl [simp]: "isDouble (fl x)"
proof -
  obtain k where k: "\<bar>k\<bar> \<le> 2 ^ 53" "fl x = of_int k * quantum x" using fl_grid by blast
  have "fl (of_int k * pow2 (max (binade x - 52) (- 1074))) = of_int k * pow2 (max (binade x - 52) (- 1074))"
    by (rule fl_exact, simp, rule k(1))
  then show ?thesis by (simp add: isDouble_def k(2) quantum_eq)
qed

lemma isDouble_exact: "- 1074 \<le> e \<Longrightarrow> \<bar>m\<bar> \<le> 2 ^ 53 \<Longrightarrow> isDouble (of_int m * pow2 e)"
  by (simp add: isDouble_def fl_exact)

lemma isDouble_0 [simp]: "isDouble 0"
  by (simp add: isDouble_def)

lemma isDouble_minus [simp]: "isDouble (- x) = isDouble x"
  by (auto simp: isDouble_def fl_minus)

lemma isDouble_pow2: "- 1074 \<le> e \<Longrightarrow> isDouble (pow2 e)"
  using isDouble_exact [of e 1] by simp

lemma isDouble_1 [simp]: "isDouble 1"
  using isDouble_pow2 [of 0] by simp

lemma double_grid:
  assumes d: "isDouble d" and n: "pow2 n \<le> \<bar>d\<bar>"
  shows "\<exists>j. d = of_int j * pow2 (max (n - 52) (- 1074))"
proof -
  let ?e = "max (n - 52) (- 1074)"
  let ?ed = "max (binade d - 52) (- 1074)"
  have "n \<le> binade d" using n by (rule binade_ge)
  then have le: "?e \<le> ?ed" by simp
  obtain k where "fl d = of_int k * quantum d" using fl_grid by blast
  then have "d = of_int k * pow2 ?ed" using d by (simp add: isDouble_def quantum_eq)
  also have "\<dots> = of_int k * (2 ^ nat (?ed - ?e) * pow2 ?e)" using pow2_split [OF le] by simp
  also have "\<dots> = of_int (k * 2 ^ nat (?ed - ?e)) * pow2 ?e" by simp
  finally show ?thesis by blast
qed

lemma double_unit:
  assumes d: "isDouble d"
  shows "\<exists>j. d = of_int j * pow2 (- 1074)"
proof -
  let ?ed = "max (binade d - 52) (- 1074)"
  have le: "- 1074 \<le> ?ed" by simp
  obtain k where "fl d = of_int k * quantum d" using fl_grid by blast
  then have "d = of_int k * pow2 ?ed" using d by (simp add: isDouble_def quantum_eq)
  also have "\<dots> = of_int k * (2 ^ nat (?ed - (- 1074)) * pow2 (- 1074))"
    using pow2_split [OF le] by simp
  also have "\<dots> = of_int (k * 2 ^ nat (?ed - (- 1074))) * pow2 (- 1074)" by simp
  finally show ?thesis by blast
qed

lemma fl_nearest_grid:
  assumes "x \<noteq> 0"
  shows "\<bar>fl x - x\<bar> \<le> \<bar>of_int j * quantum x - x\<bar>"
proof -
  let ?q = "quantum x"
  let ?k = "roundEven (x / ?q)"
  have q: "0 < ?q" by simp
  have "\<bar>of_int ?k - x / ?q\<bar> \<le> \<bar>of_int j - x / ?q\<bar>" by (rule roundEven_nearest)
  then have "\<bar>of_int ?k - x / ?q\<bar> * ?q \<le> \<bar>of_int j - x / ?q\<bar> * ?q"
    using q by (simp add: mult_right_mono)
  moreover have "\<bar>of_int i - x / ?q\<bar> * ?q = \<bar>of_int i * ?q - x\<bar>" for i
  proof -
    have "\<bar>of_int i - x / ?q\<bar> * ?q = \<bar>(of_int i - x / ?q) * ?q\<bar>" using q by (simp add: abs_mult)
    also have "(of_int i - x / ?q) * ?q = of_int i * ?q - x" using q by (simp add: field_simps)
    finally show ?thesis .
  qed
  ultimately show ?thesis using assms by (simp add: fl_def)
qed

lemma fl_nearest:
  assumes d: "isDouble d"
  shows "\<bar>fl x - x\<bar> \<le> \<bar>d - x\<bar>"
proof (cases "x = 0")
  case True then show ?thesis by simp
next
  case False
  let ?n = "binade x"
  let ?e = "max (?n - 52) (- 1074)"
  have q: "quantum x = pow2 ?e" by (rule quantum_eq)
  show ?thesis
  proof (cases "\<exists>j. d = of_int j * pow2 ?e")
    case True
    then obtain j where "d = of_int j * quantum x" using q by auto
    then show ?thesis using fl_nearest_grid [OF False, of j] by simp
  next
    case off: False
    obtain j0 where "d = of_int j0 * pow2 (- 1074)" using double_unit [OF d] by blast
    with off have "?e \<noteq> - 1074" by metis
    then have e: "?e = ?n - 52" "- 1074 \<le> ?n - 52" by (simp_all add: max_def split: if_splits)
    have small: "\<bar>d\<bar> < pow2 ?n"
      using off double_grid [OF d, of ?n] by force
    have bx: "pow2 ?n \<le> \<bar>x\<bar>" using False by (rule binade_bounds)
    have p: "pow2 ?n = 2 ^ 52 * quantum x"
      using pow2_split [of "?n - 52" ?n] by (simp add: q e)
    define s :: int where "s = (if 0 < x then 1 else - 1)"
    have "of_int (s * 2 ^ 52) * quantum x = of_int s * (2 ^ 52 * quantum x)" by simp
    also have "\<dots> = of_int s * pow2 ?n" by (simp only: p)
    finally have sg: "of_int (s * 2 ^ 52) * quantum x = of_int s * pow2 ?n" .
    have g: "\<bar>fl x - x\<bar> \<le> \<bar>of_int s * pow2 ?n - x\<bar>"
      using fl_nearest_grid [OF False, of "s * 2 ^ 52"] by (simp only: sg)
    have "\<bar>of_int s * pow2 ?n - x\<bar> = \<bar>x\<bar> - pow2 ?n"
      using bx False by (auto simp: s_def abs_if)
    with g small show ?thesis by linarith
  qed
qed

lemma isDouble_fl_id: "isDouble x \<Longrightarrow> fl x = x"
  by (simp add: isDouble_def)

lemma fl_mono:
  assumes "x \<le> y"
  shows "fl x \<le> fl y"
proof (rule ccontr)
  assume "\<not> fl x \<le> fl y"
  then have lt: "fl y < fl x" by simp
  have 1: "\<bar>fl x - x\<bar> \<le> \<bar>fl y - x\<bar>" by (rule fl_nearest) simp
  have 2: "\<bar>fl y - y\<bar> \<le> \<bar>fl x - y\<bar>" by (rule fl_nearest) simp
  from 1 lt have "fl x + fl y \<le> 2 * x" by linarith
  moreover from 2 lt have "2 * y \<le> fl x + fl y" by linarith
  ultimately have "x = y" using assms by linarith
  with lt show False by simp
qed

lemma fl_lower: "isDouble a \<Longrightarrow> a \<le> x \<Longrightarrow> a \<le> fl x"
  using fl_mono [of a x] by (simp add: isDouble_def)




section \<open>Interpolation in double precision\<close>



















section \<open>Values of particular roundings\<close>

lemma pow2_numeral: "pow2 (numeral k) = 2 ^ numeral k"
  using pow2_nat [of "numeral k"] by simp

lemma pow2_neg_numeral: "pow2 (- numeral k) = 1 / 2 ^ numeral k"
  using pow2_diff [of 0 "numeral k"] by (simp add: pow2_numeral)

lemma pow2_neg_one: "pow2 (- 1) = 1 / 2"
  using pow2_diff [of 0 1] by (simp add: pow2_def)

lemmas pow2_eval = pow2_numeral pow2_neg_numeral pow2_neg_one

lemma fl_val:
  assumes "pow2 n \<le> \<bar>x\<bar>" "\<bar>x\<bar> < pow2 (n + 1)" "- 1022 \<le> n"
    and "\<bar>of_int k - x / pow2 (n - 52)\<bar> < 1 / 2
         \<or> (\<bar>of_int k - x / pow2 (n - 52)\<bar> = 1 / 2 \<and> even k)"
  shows "fl x = of_int k * pow2 (n - 52)"
proof -
  have b: "binade x = n" using assms(1,2) by (rule binade_eq)
  have "max (n - 52) (- 1074) = n - 52" using assms(3) by simp
  then have q: "quantum x = pow2 (n - 52)" by (simp only: quantum_eq b)
  have "0 < \<bar>x\<bar>" using assms(1) pow2_pos [of n] by linarith
  then have x: "x \<noteq> 0" by simp
  have "roundEven (x / pow2 (n - 52)) = k" using assms(4) by (rule roundEven_unique)
  then show ?thesis using x by (simp add: fl_def q)
qed

lemma isDouble_dyadic:
  assumes "\<bar>m\<bar> \<le> 2 ^ 53" "k \<le> 1074"
  shows "isDouble (of_int m / 2 ^ k)"
proof -
  have "pow2 (- int k) = 1 / 2 ^ k" using pow2_diff [of 0 "int k"] by (simp add: pow2_int)
  moreover have "isDouble (of_int m * pow2 (- int k))"
    using assms by (intro isDouble_exact) simp_all
  ultimately show ?thesis by simp
qed

lemma fl_08: "fl (4 / 5) = 3602879701896397 / 4503599627370496"
  using fl_val [of "- 1" "4 / 5" 7205759403792794] by (simp add: pow2_eval)

lemma fl_07: "fl (7 / 10) = 3152519739159347 / 4503599627370496"
  using fl_val [of "- 1" "7 / 10" 6305039478318694] by (simp add: pow2_eval)

lemma fl_factor: "fl (1 - fl (4 / 5)) = 900719925474099 / 4503599627370496"
proof -
  have "isDouble (of_int 900719925474099 / 2 ^ 52)" by (rule isDouble_dyadic) simp_all
  then show ?thesis by (simp add: fl_08 isDouble_def)
qed





section \<open>Monotone sequences of doubles\<close>




section \<open>The analyzer: vowel weights and volume\<close>

lemma proximity_pos: "0 < proximity f v"
  unfolding proximity_def Let_def by (simp add: add_pos_nonneg)

lemma raw_weights: "foldl (\<lambda>w v. w(v := proximity f v)) zeroWeights vowels = proximity f"
proof
  fix v show "foldl (\<lambda>w v. w(v := proximity f v)) zeroWeights vowels v = proximity f v"
    by (cases v) (simp_all add: vowels_def)
qed

lemma foldl_plus: "foldl (\<lambda>sumv w. sumv + w) (a::real) xs = a + sum_list xs"
  by (induction xs arbitrary: a) simp_all

lemma total_pos: "0 < sum_list (map (proximity f) vowels)"
  by (simp add: vowels_def add_pos_pos proximity_pos)

lemma normalised_weights: "foldl (\<lambda>w v. w(v := w v / t)) w0 vowels = (\<lambda>v. w0 v / t)"
proof
  fix v show "foldl (\<lambda>w v. w(v := w v / t)) w0 vowels v = w0 v / t"
    by (cases v) (simp_all add: vowels_def)
qed

lemma calculateVowelWeights_eq:
  "calculateVowelWeights f v = proximity f v / sum_list (map (proximity f) vowels)"
  unfolding calculateVowelWeights_def Let_def raw_weights foldl_plus normalised_weights
  using total_pos [of f] by simp

lemma sum_list_divide:
  "sum_list (map (\<lambda>v. g v / (t::real)) xs) = sum_list (map g xs) / t"
  by (induction xs) (simp_all add: add_divide_distrib)

lemma calculateVowelWeights_sum: "sum_list (map (calculateVowelWeights f) vowels) = 1"
proof -
  let ?t = "sum_list (map (proximity f) vowels)"
  have "sum_list (map (calculateVowelWeights f) vowels) = ?t / ?t"
    unfolding calculateVowelWeights_eq by (rule sum_list_divide)
  then show ?thesis using total_pos [of f] by simp
qed

text \<open>
  Claim C6. For every dominant frequency, if some vowel's proximity score
  \<open>1 / (1 + (|freq - F1| + |freq - F2|) / 1000)\<close> is not zero, the vowel weights that
  \<open>calculateVowelWeights\<close> returns sum to 1 and are not all zero; that is, the vector is
  all zero only when all five scores are zero. (In exact arithmetic every score is
  positive, \<open>proximity_pos\<close>, so the sum is 1 for every frequency.)
\<close>

theorem C6_vowel_weights_sum_to_one:
  assumes "\<exists>v. proximity f v \<noteq> 0"
  shows "sum_list (map (calculateVowelWeights f) vowels) = 1
         \<and> (\<exists>v. calculateVowelWeights f v \<noteq> 0)"
proof
  show "sum_list (map (calculateVowelWeights f) vowels) = 1"
    by (rule calculateVowelWeights_sum)
  have "calculateVowelWeights f AA > 0"
    unfolding calculateVowelWeights_eq using total_pos proximity_pos by simp
  then show "\<exists>v. calculateVowelWeights f v \<noteq> 0" by (metis less_irrefl)
qed

theorem C6_witness:
  "proximity 700 AA = 25 / 38
   \<and> sum_list (map (calculateVowelWeights 700) vowels) = 1
   \<and> (\<exists>v. calculateVowelWeights 700 v \<noteq> 0)"
proof -
  have p: "proximity 700 AA = 25 / 38" by (simp add: proximity_def)
  then have "\<exists>v. proximity 700 v \<noteq> 0" by (intro exI [of _ AA]) simp
  from C6_vowel_weights_sum_to_one [OF this] p show ?thesis by simp
qed

lemma foldl_volumeStep:
  "foldl (volumeStep cfg) (s, c) data =
     (s + (\<Sum>x\<leftarrow>aboveFloor cfg data. (normalizedBin cfg x)\<^sup>2),
      c + length (aboveFloor cfg data))"
  by (induction data arbitrary: s c)
     (simp_all add: volumeStep_def aboveFloor_def normalizedBin_def Let_def power2_eq_square)

lemma analyzeVolume_rms: "analyzeVolume cfg data = rmsAboveFloor cfg data"
  by (simp add: analyzeVolume_def foldl_volumeStep rmsAboveFloor_def)

lemma sum_squares_nonneg: "0 \<le> (\<Sum>x\<leftarrow>xs. (g x :: real)\<^sup>2)"
  by (induction xs) simp_all

lemma rms_nonneg: "0 \<le> rmsAboveFloor cfg data"
  by (simp add: rmsAboveFloor_def sum_squares_nonneg)

lemma rms_silent: "\<forall>x \<in> set data. x \<le> minDecibels cfg \<Longrightarrow> rmsAboveFloor cfg data = 0"
  by (simp add: rmsAboveFloor_def aboveFloor_def filter_empty_conv not_less)

lemma sum_squares_le_length:
  "\<forall>x \<in> set xs. 0 \<le> g x \<and> g x \<le> (1::real) \<Longrightarrow> (\<Sum>x\<leftarrow>xs. (g x)\<^sup>2) \<le> real (length xs)"
proof (induction xs)
  case Nil
  then show ?case by simp
next
  case (Cons x xs)
  then have "(g x)\<^sup>2 \<le> 1" by (simp add: power_le_one)
  with Cons show ?case by simp
qed

lemma normalizedBin_unit:
  assumes "minDecibels cfg < maxDecibels cfg" "minDecibels cfg < x" "x \<le> maxDecibels cfg"
  shows "0 \<le> normalizedBin cfg x \<and> normalizedBin cfg x \<le> 1"
  using assms by (simp add: normalizedBin_def)

lemma rms_le_one:
  assumes "minDecibels cfg < maxDecibels cfg" "\<forall>x \<in> set data. x \<le> maxDecibels cfg"
  shows "rmsAboveFloor cfg data \<le> 1"
proof (cases "aboveFloor cfg data = []")
  case True
  then show ?thesis by (simp add: rmsAboveFloor_def)
next
  case False
  let ?xs = "aboveFloor cfg data"
  have "\<forall>x \<in> set ?xs. 0 \<le> normalizedBin cfg x \<and> normalizedBin cfg x \<le> 1"
    using assms normalizedBin_unit by (simp add: aboveFloor_def)
  then have "(\<Sum>x\<leftarrow>?xs. (normalizedBin cfg x)\<^sup>2) \<le> real (length ?xs)"
    by (rule sum_squares_le_length)
  moreover have "0 < real (length ?xs)" using False by simp
  ultimately have "(\<Sum>x\<leftarrow>?xs. (normalizedBin cfg x)\<^sup>2) / real (length ?xs) \<le> 1"
    by (simp add: divide_le_eq)
  then have "sqrt ((\<Sum>x\<leftarrow>?xs. (normalizedBin cfg x)\<^sup>2) / real (length ?xs)) \<le> 1"
    by simp
  with False show ?thesis by (simp add: rmsAboveFloor_def)
qed

lemma analyze_volume:
  "fst (analyze spectrum a) = Inr (Some r) \<Longrightarrow> volume r = analyzeVolume (aaConfig a) spectrum"
  by (auto simp: analyze_def Let_def split: if_splits option.splits)

lemma readyAnalyzer_fields:
  "analyser readyAnalyzer = Some ()"
  "dataArray readyAnalyzer = Some (replicate 128 0)"
  "audioContext readyAnalyzer = Some browserContext"
  "aaConfig readyAnalyzer = defaultAnalyzerConfig"
  by (simp_all add: readyAnalyzer_def initialize_def newAudioAnalyzer_def browserContext_def
      browser_def defaultAnalyzerConfig_def Let_def)

lemma analyze_ready:
  "\<exists>r. fst (analyze spectrum readyAnalyzer) = Inr (Some r)
       \<and> volume r = analyzeVolume defaultAnalyzerConfig spectrum"
  by (simp add: analyze_def readyAnalyzer_fields Let_def)

lemma defaultAnalyzerConfig_range:
  "minDecibels defaultAnalyzerConfig = - 90" "maxDecibels defaultAnalyzerConfig = - 10"
  by (simp_all add: defaultAnalyzerConfig_def)

lemma aboveFloor_loud: "aboveFloor defaultAnalyzerConfig loudSpectrum = [0]"
  by (simp add: aboveFloor_def loudSpectrum_def defaultAnalyzerConfig_range)

lemma aboveFloor_speech: "aboveFloor defaultAnalyzerConfig speechSpectrum = [- 50]"
  by (simp add: aboveFloor_def speechSpectrum_def defaultAnalyzerConfig_range)

lemma volume_loud: "analyzeVolume defaultAnalyzerConfig loudSpectrum = 9 / 8"
proof -
  have "sqrt (81 / 64) = (9 / 8 :: real)"
    by (rule real_sqrt_unique) (simp_all add: power2_eq_square)
  moreover have "normalizedBin defaultAnalyzerConfig 0 = 9 / 8"
    by (simp add: normalizedBin_def defaultAnalyzerConfig_range)
  ultimately show ?thesis
    by (simp add: analyzeVolume_rms rmsAboveFloor_def aboveFloor_loud power2_eq_square)
qed

lemma volume_speech: "analyzeVolume defaultAnalyzerConfig speechSpectrum = 1 / 2"
proof -
  have "sqrt (1 / 4) = (1 / 2 :: real)"
    by (rule real_sqrt_unique) (simp_all add: power2_eq_square)
  moreover have "normalizedBin defaultAnalyzerConfig (- 50) = 1 / 2"
    by (simp add: normalizedBin_def defaultAnalyzerConfig_range)
  ultimately show ?thesis
    by (simp add: analyzeVolume_rms rmsAboveFloor_def aboveFloor_speech power2_eq_square)
qed

text \<open>
  Claim C2, as the code has it. The volume that \<open>analyze\<close> returns is the root mean square
  of the normalised magnitudes of the bins strictly above \<open>minDecibels\<close>, the other bins
  counting neither in the sum nor in the count; it is never negative, and it is 0 when no bin
  exceeds the floor. It is at most 1 when \<open>minDecibels < maxDecibels\<close> and no bin exceeds
  \<open>maxDecibels\<close>: the code does not clamp a bin above \<open>maxDecibels\<close>.
\<close>

theorem C2_volume_is_rms_above_floor:
  assumes "fst (analyze spectrum a) = Inr (Some r)"
  shows "volume r = rmsAboveFloor (aaConfig a) spectrum
         \<and> 0 \<le> volume r
         \<and> ((\<forall>x \<in> set spectrum. x \<le> minDecibels (aaConfig a)) \<longrightarrow> volume r = 0)
         \<and> (minDecibels (aaConfig a) < maxDecibels (aaConfig a)
              \<and> (\<forall>x \<in> set spectrum. x \<le> maxDecibels (aaConfig a)) \<longrightarrow> volume r \<le> 1)"
proof -
  have "volume r = rmsAboveFloor (aaConfig a) spectrum"
    using analyze_volume [OF assms] by (simp add: analyzeVolume_rms)
  then show ?thesis
    using rms_nonneg [of "aaConfig a" spectrum] rms_silent [of spectrum "aaConfig a"]
      rms_le_one [of "aaConfig a" spectrum]
    by simp
qed

theorem C2_witness:
  "(\<exists>r. fst (analyze speechSpectrum readyAnalyzer) = Inr (Some r)
        \<and> volume r = rmsAboveFloor defaultAnalyzerConfig speechSpectrum
        \<and> volume r = 1 / 2 \<and> 0 \<le> volume r \<and> volume r \<le> 1)
   \<and> (\<exists>r. fst (analyze silentSpectrum readyAnalyzer) = Inr (Some r) \<and> volume r = 0)"
proof -
  obtain r where r: "fst (analyze speechSpectrum readyAnalyzer) = Inr (Some r)"
    and v: "volume r = analyzeVolume defaultAnalyzerConfig speechSpectrum"
    using analyze_ready by blast
  have bound: "\<forall>x \<in> set speechSpectrum. x \<le> maxDecibels (aaConfig readyAnalyzer)"
    by (simp add: speechSpectrum_def readyAnalyzer_fields defaultAnalyzerConfig_range)
  have q: "volume r = rmsAboveFloor defaultAnalyzerConfig speechSpectrum
           \<and> volume r = 1 / 2 \<and> 0 \<le> volume r \<and> volume r \<le> 1"
    using C2_volume_is_rms_above_floor [OF r] v bound
    by (simp add: readyAnalyzer_fields defaultAnalyzerConfig_range volume_speech)
  obtain r0 where r0: "fst (analyze silentSpectrum readyAnalyzer) = Inr (Some r0)"
    using analyze_ready by blast
  have "\<forall>x \<in> set silentSpectrum. x \<le> minDecibels (aaConfig readyAnalyzer)"
    by (simp add: silentSpectrum_def readyAnalyzer_fields defaultAnalyzerConfig_range)
  then have "volume r0 = 0"
    using C2_volume_is_rms_above_floor [OF r0] by simp
  with r r0 q show ?thesis by blast
qed

text \<open>
  The claim's bound fails on a spectrum with a bin above \<open>maxDecibels\<close>: with the default
  range from -90 dB to -10 dB, a single bin at 0 dB normalises to 90 / 80 and the volume
  is 9 / 8.
\<close>

theorem C2_counterexample:
  "\<exists>r. fst (analyze loudSpectrum readyAnalyzer) = Inr (Some r)
       \<and> volume r = 9 / 8 \<and> \<not> volume r \<le> 1"
proof -
  obtain r where "fst (analyze loudSpectrum readyAnalyzer) = Inr (Some r)"
    and "volume r = analyzeVolume defaultAnalyzerConfig loudSpectrum"
    using analyze_ready by blast
  then show ?thesis by (simp add: volume_loud)
qed

lemma dominant_keeps:
  "\<forall>i \<in> set idxs. data ! i \<le> m \<Longrightarrow> foldl (dominantStep data) (Some m, k) idxs = (Some m, k)"
  by (induction idxs) (simp_all add: dominantStep_def)

lemma dominant_first:
  assumes "\<forall>y \<in> set ys. y \<le> x"
  shows "analyzeMaxIndex (x # ys) = 0"
proof -
  have "[0..<Suc (length ys)] = 0 # [Suc 0..<Suc (length ys)]"
    by (rule upt_conv_Cons) simp
  then have idx: "[0..<length (x # ys)] = 0 # [1..<Suc (length ys)]"
    by simp
  have "\<forall>i \<in> set [1..<Suc (length ys)]. (x # ys) ! i \<le> x"
    using assms by (auto simp: nth_Cons split: nat.splits)
  then have "foldl (dominantStep (x # ys)) (Some x, 0) [1..<Suc (length ys)] = (Some x, 0)"
    by (rule dominant_keeps)
  then show ?thesis
    unfolding analyzeMaxIndex_def idx by (simp add: dominantStep_def)
qed

lemma analyze_speech: "fst (analyze speechSpectrum readyAnalyzer) = Inr (Some speechFrame)"
  apply (simp add: analyze_def readyAnalyzer_fields Let_def speechFrame_def volume_speech)
  apply (simp add: speechSpectrum_def dominant_first)
  done


section \<open>The engine: silence decay and smoothing\<close>

lemma foldl_vowels_upd: "foldl (\<lambda>sw v. sw(v := g (sw v) v)) w vowels = (\<lambda>v. g (w v) v)"
proof
  fix v show "foldl (\<lambda>sw v. sw(v := g (sw v) v)) w vowels v = g (w v) v"
    by (cases v) (simp_all add: vowels_def)
qed





lemma processLipSync_loud_weights:
  "\<not> fl (volume a * 100) < minVolume (lsConfig s) \<Longrightarrow>
   smoothedWeights (processLipSync a s) =
     (\<lambda>v. lerp (smoothedWeights s v) (targetWeight a s v) (fl (1 - smoothing (lsConfig s))))"
  unfolding processLipSync_def Let_def targetWeight_def
  using foldl_vowels_upd [of "\<lambda>x v. lerp x (fl (vowelWeights a v * min 1 (fl (volume a * sensitivity (lsConfig s))))) (fl (1 - smoothing (lsConfig s)))" "smoothedWeights s"]
  by simp




lemma targetWeight_config: "lsConfig s' = lsConfig s \<Longrightarrow> targetWeight a s' v = targetWeight a s v"
  by (simp add: targetWeight_def)


lemma isDouble_target [simp]: "isDouble (targetWeight a s v)"
  by (simp add: targetWeight_def)




lemma fl_fl [simp]: "fl (fl x) = fl x"
  using isDouble_fl [of x] by (simp only: isDouble_def)

lemma isDouble_int: "\<bar>m\<bar> \<le> 2 ^ 53 \<Longrightarrow> isDouble (of_int m)"
  using isDouble_exact [of 0 m] by simp

lemma isDouble_numeral: "numeral k \<le> (2::int) ^ 53 \<Longrightarrow> isDouble (numeral k)"
  using isDouble_int [of "numeral k"] by simp

lemma fl_numeral [simp]: "numeral k \<le> (2::int) ^ 53 \<Longrightarrow> fl (numeral k) = numeral k"
  using isDouble_numeral [of k] by (simp add: isDouble_def)

lemma fl_1 [simp]: "fl 1 = 1"
  using isDouble_1 by (simp only: isDouble_def)

lemma isDouble_inverse_pow: "k \<le> 1074 \<Longrightarrow> isDouble (1 / 2 ^ k)"
  using isDouble_dyadic [of 1 k] by simp

lemma default_bounds:
  "1 / 2 \<le> fl (7 / 10)" "fl (7 / 10) \<le> 1" "0 \<le> fl (7 / 10)"
  "3 / 4 \<le> fl (4 / 5)" "fl (4 / 5) \<le> 7 / 8" "0 \<le> fl (4 / 5)" "fl (4 / 5) \<le> 1"
  by (simp_all add: fl_07 fl_08)

lemma default_factor:
  "1 / 8 \<le> fl (1 - fl (4 / 5))" "fl (1 - fl (4 / 5)) \<le> 1 / 4" "0 \<le> fl (1 - fl (4 / 5))"
  "fl (1 - fl (4 / 5)) < 1"
  by (simp_all add: fl_factor)

lemma defaultEngine_config:
  "lsConfig defaultEngine =
     \<lparr>sensitivity = fl (7 / 10), smoothing = fl (4 / 5), minVolume = 10, updateInterval = 16\<rparr>"
  "smoothedWeights defaultEngine = zeroWeights"
  by (simp_all add: defaultEngine_def newLipSyncEngine_def noConfig_def)




lemma speech_weight_lower: "1 / 8 \<le> calculateVowelWeights 0 AA"
  by (simp add: calculateVowelWeights_eq proximity_def vowels_def)

lemma speech_target_lower:
  assumes "sensitivity (lsConfig s) = fl (7 / 10)"
  shows "1 / 32 \<le> targetWeight speechFrame s AA"
proof -
  have "1 / 4 \<le> 1 / 2 * fl (7 / 10)" using default_bounds(1) by simp
  then have "1 / 4 \<le> fl (1 / 2 * fl (7 / 10))"
    using isDouble_inverse_pow [of 2] by (intro fl_lower) simp_all
  then have m: "1 / 4 \<le> min 1 (fl (1 / 2 * fl (7 / 10)))" by simp
  have "1 / 8 * (1 / 4) \<le> calculateVowelWeights 0 AA * min 1 (fl (1 / 2 * fl (7 / 10)))"
    using speech_weight_lower m by (intro mult_mono) simp_all
  then have "1 / 32 \<le> fl (calculateVowelWeights 0 AA * min 1 (fl (1 / 2 * fl (7 / 10))))"
    using isDouble_inverse_pow [of 5] by (intro fl_lower) simp_all
  then show ?thesis by (simp add: targetWeight_def speechFrame_def assms)
qed

lemma speech_target_pos: "0 < targetWeight speechFrame defaultEngine AA"
  using speech_target_lower [of defaultEngine] by (simp add: defaultEngine_config)

lemma speech_loud: "\<not> fl (volume speechFrame * 100) < minVolume (lsConfig defaultEngine)"
  by (simp add: speechFrame_def defaultEngine_config)

lemma lerp_from_zero:
  assumes t: "isDouble t" and c: "isDouble c" "c \<le> t * f"
  shows "c \<le> lerp 0 t f"
proof -
  have "c \<le> fl (t * f)" using c by (intro fl_lower)
  moreover have "fl t = t" using t by (simp only: isDouble_def)
  ultimately show ?thesis by (simp add: lerp_def)
qed

lemma speech_first_weight:
  "1 / 256 \<le> lerp 0 (targetWeight speechFrame defaultEngine AA) (fl (1 - fl (4 / 5)))"
proof -
  have "0 \<le> targetWeight speechFrame defaultEngine AA" using speech_target_pos by simp
  then have "1 / 32 * (1 / 8) \<le> targetWeight speechFrame defaultEngine AA * fl (1 - fl (4 / 5))"
    using speech_target_lower [of defaultEngine] default_factor(1)
    by (intro mult_mono) (simp_all add: defaultEngine_config)
  then show ?thesis
    using isDouble_inverse_pow [of 8] by (intro lerp_from_zero) simp_all
qed





section \<open>The mapper: writes to channel sinks\<close>

lemma length_setInfluence [simp]: "length (setInfluence mid i x ms) = length ms"
  by (simp add: setInfluence_def split: option.splits)

lemma hasSink_setInfluence [simp]: "hasSink (setInfluence mid i x ms) k = hasSink ms k"
  by (auto simp: setInfluence_def hasSink_def nth_list_update split: option.splits)

lemma dictionary_setInfluence [simp]:
  "morphTargetDictionary (setInfluence mid i x ms ! k) = morphTargetDictionary (ms ! k)"
  by (auto simp: setInfluence_def nth_list_update split: option.splits)

lemma readInfluence_setInfluence:
  "readInfluence (setInfluence mid i x ms) k j =
     (if k = mid \<and> j = i \<and> hasSink ms mid then Some x else readInfluence ms k j)"
  by (auto simp: setInfluence_def readInfluence_def hasSink_def nth_list_update split: option.splits)

lemma length_writeTargets [simp]: "length (writeTargets ts x ms) = length ms"
  unfolding writeTargets_def by (induction ts arbitrary: ms) simp_all

lemma hasSink_writeTargets [simp]: "hasSink (writeTargets ts x ms) k = hasSink ms k"
  unfolding writeTargets_def by (induction ts arbitrary: ms) simp_all

lemma dictionary_writeTargets [simp]:
  "morphTargetDictionary (writeTargets ts x ms ! k) = morphTargetDictionary (ms ! k)"
  unfolding writeTargets_def by (induction ts arbitrary: ms) simp_all

lemma writeTargets_Nil [simp]: "writeTargets [] x ms = ms"
  by (simp add: writeTargets_def)

lemma writeTargets_Cons: "writeTargets (t # ts) x ms = writeTargets ts x (setInfluence (fst t) (snd t) x ms)"
  by (simp add: writeTargets_def)

lemma writeTargets_append: "writeTargets (ts @ us) x ms = writeTargets us x (writeTargets ts x ms)"
  by (simp add: writeTargets_def)

lemma readInfluence_writeTargets:
  "readInfluence (writeTargets ts x ms) k j =
     (if (k, j) \<in> set ts \<and> hasSink ms k then Some x else readInfluence ms k j)"
proof (induction ts arbitrary: ms)
  case Nil
  then show ?case by simp
next
  case (Cons t ts)
  show ?case
    by (cases t) (auto simp: writeTargets_Cons Cons readInfluence_setInfluence)
qed






section \<open>The mapper: reset\<close>

lemma resetNameStep_write: "resetNameStep tm ms n = writeTargets (targetsOf tm n) 0 ms"
  by (simp add: resetNameStep_def targetsOf_def split: option.splits)

lemma foldl_resetNameStep:
  "foldl (resetNameStep tm) ms names = writeTargets (concat (map (targetsOf tm) names)) 0 ms"
  by (induction names arbitrary: ms) (simp_all add: resetNameStep_write writeTargets_append)

lemma reset_meshes:
  "mmVrm m = Some vrm \<Longrightarrow>
   mmVrm (reset m) = Some (vrmUpdate (vrm\<lparr>meshes := writeTargets (vrcTargets (morphTargetMap m)) 0 (meshes vrm),
                                        expressionManager := map_option resetExpressions (expressionManager vrm)\<rparr>))"
  by (simp add: reset_def Let_def foldl_resetNameStep vrcTargets_def split: option.splits)


lemma reset_frame [simp]: "morphTargetMap (reset m) = morphTargetMap m" "mmConfig (reset m) = mmConfig m"
  by (simp_all add: reset_def Let_def split: option.splits)

lemma resetExpressions_values:
  "exprValues (resetExpressions em) n = (if n \<in> set canonicalExpressions then Some 0 else exprValues em n)"
  by (simp add: resetExpressions_def exprUpdate_def setValue_def canonicalExpressions_def)

lemma resetExpressions_updates: "exprUpdates (resetExpressions em) = exprUpdates em + 1"
  by (simp add: resetExpressions_def exprUpdate_def setValue_def)

lemma targetsOf_iff:
  "t \<in> set (targetsOf tm n) \<longleftrightarrow> (\<exists>ts. map_of tm n = Some ts \<and> t \<in> set ts)"
  by (cases "map_of tm n") (simp_all add: targetsOf_def)

lemma vrcTargets_iff:
  "t \<in> set (vrcTargets tm) \<longleftrightarrow> (\<exists>n \<in> set vrcVowelMorphs. \<exists>ts. map_of tm n = Some ts \<and> t \<in> set ts)"
  by (simp add: vrcTargets_def targetsOf_iff)

lemma dispose_released:
  "analyser (dispose a) = None" "source (dispose a) = None" "dataArray (dispose a) = None"
  by (cases "analyser a"; cases "source a"; simp add: dispose_def Let_def split: option.splits)+




lemma zero_all: "foldl (\<lambda>sw k. sw(k := 0)) w vowels = zeroWeights"
proof
  fix v show "foldl (\<lambda>sw k. sw(k := 0)) w vowels v = zeroWeights v"
    by (cases v) (simp_all add: vowels_def zeroWeights_def)
qed

lemma stop_fields:
  "isRunning (stop s) = False" "animationFrame (stop s) = 0"
  "smoothedWeights (stop s) = zeroWeights" "morphMapper (stop s) = reset (morphMapper s)"
  "audioAnalyzer (stop s) = dispose (audioAnalyzer s)" "lsConfig (stop s) = lsConfig s"
  "lastUpdateTime (stop s) = lastUpdateTime s" "vrmBound (stop s) = vrmBound s"
  by (simp_all add: stop_def Let_def zero_all)



section \<open>The mapper: the strategies of applyVowelWeights\<close>

lemma vrcTargetStep_flag: "fst acc \<Longrightarrow> fst (vrcTargetStep x acc t)"
  by (simp add: vrcTargetStep_def)

lemma vrcTargetStep_unapplied: "\<not> fst (vrcTargetStep x acc t) \<Longrightarrow> vrcTargetStep x acc t = acc"
  by (auto simp: vrcTargetStep_def split: if_splits)

lemma foldl_vrcTargetStep_flag: "fst acc \<Longrightarrow> fst (foldl (vrcTargetStep x) acc ts)"
  by (induction ts arbitrary: acc) (simp_all add: vrcTargetStep_flag)

lemma foldl_vrcTargetStep_unapplied:
  "\<not> fst (foldl (vrcTargetStep x) acc ts) \<Longrightarrow> foldl (vrcTargetStep x) acc ts = acc"
proof (induction ts arbitrary: acc)
  case Nil
  then show ?case by simp
next
  case (Cons t ts)
  from Cons.prems have nf: "\<not> fst (foldl (vrcTargetStep x) (vrcTargetStep x acc t) ts)" by simp
  from Cons.IH [OF nf]
  have eq: "foldl (vrcTargetStep x) (vrcTargetStep x acc t) ts = vrcTargetStep x acc t" .
  with nf have "\<not> fst (vrcTargetStep x acc t)" by simp
  then have "vrcTargetStep x acc t = acc" by (rule vrcTargetStep_unapplied)
  with eq show ?case by simp
qed

lemma vrcVowelStep_flag: "fst acc \<Longrightarrow> fst (vrcVowelStep tm w acc v)"
  by (simp add: vrcVowelStep_def foldl_vrcTargetStep_flag split: option.splits)

lemma vrcVowelStep_unapplied: "\<not> fst (vrcVowelStep tm w acc v) \<Longrightarrow> vrcVowelStep tm w acc v = acc"
  by (cases "map_of tm (vrcMapping v)")
     (auto simp: vrcVowelStep_def intro: foldl_vrcTargetStep_unapplied)

lemma foldl_vrcVowelStep_flag: "fst acc \<Longrightarrow> fst (foldl (vrcVowelStep tm w) acc vs)"
  by (induction vs arbitrary: acc) (simp_all add: vrcVowelStep_flag)

lemma foldl_vrcVowelStep_unapplied:
  "\<not> fst (foldl (vrcVowelStep tm w) acc vs) \<Longrightarrow> foldl (vrcVowelStep tm w) acc vs = acc"
proof (induction vs arbitrary: acc)
  case Nil
  then show ?case by simp
next
  case (Cons v vs)
  from Cons.prems have nf: "\<not> fst (foldl (vrcVowelStep tm w) (vrcVowelStep tm w acc v) vs)" by simp
  from Cons.IH [OF nf]
  have eq: "foldl (vrcVowelStep tm w) (vrcVowelStep tm w acc v) vs = vrcVowelStep tm w acc v" .
  with nf have "\<not> fst (vrcVowelStep tm w acc v)" by simp
  then have "vrcVowelStep tm w acc v = acc" by (rule vrcVowelStep_unapplied)
  with eq show ?case by simp
qed

lemma applyVRCMorphs_unapplied:
  "\<not> fst (applyVRCMorphs tm w ms) \<Longrightarrow> snd (applyVRCMorphs tm w ms) = ms"
  unfolding applyVRCMorphs_def using foldl_vrcVowelStep_unapplied [of tm w "(False, ms)" vowels]
  by simp

lemma strategy1_unapplied: "\<not> fst (strategy1 w m vrm) \<Longrightarrow> snd (strategy1 w m vrm) = meshes vrm"
  by (simp add: strategy1_def applyVRCMorphs_unapplied split: if_splits)

lemma applyVowelWeights_cases:
  assumes "mmVrm m = Some vrm"
  shows "mmVrm (applyVowelWeights w m) =
     Some (vrmUpdate
       (if fst (strategy1 w m vrm) then vrm\<lparr>meshes := snd (strategy1 w m vrm)\<rparr>
        else case (if useExpressions (mmConfig m) then expressionManager vrm else None) of
               Some em \<Rightarrow> vrm\<lparr>expressionManager := Some (applyExpressions w em)\<rparr>
             | None \<Rightarrow> vrm\<lparr>meshes := applyAlternativeMorphs (morphTargetMap m) w (meshes vrm)\<rparr>))"
proof (cases "fst (strategy1 w m vrm)")
  case True
  then show ?thesis using assms
    by (simp add: applyVowelWeights_def Let_def strategy1_def)
next
  case False
  then have "snd (strategy1 w m vrm) = meshes vrm" by (rule strategy1_unapplied)
  then show ?thesis using assms False
    by (simp add: applyVowelWeights_def Let_def strategy1_def split: option.splits if_splits)
qed

lemma vrcMapping_in: "vrcMapping v \<in> set vrcVowelMorphs"
  by (cases v) (simp_all add: vrcVowelMorphs_def)

lemma no_vrc_names:
  assumes "\<not> hasVRCMorphs m"
  shows "map_of (morphTargetMap m) (vrcMapping v) = None"
  using assms vrcMapping_in [of v] by (auto simp: hasVRCMorphs_def list_ex_iff)

lemma foldl_vrcVowelStep_absent:
  "\<forall>v \<in> set vs. map_of tm (vrcMapping v) = None \<Longrightarrow> foldl (vrcVowelStep tm w) acc vs = acc"
  by (induction vs arbitrary: acc) (simp_all add: vrcVowelStep_def)

lemma applyVRCMorphs_absent:
  "\<not> hasVRCMorphs m \<Longrightarrow> applyVRCMorphs (morphTargetMap m) w ms = (False, ms)"
  unfolding applyVRCMorphs_def by (rule foldl_vrcVowelStep_absent) (simp add: no_vrc_names)

lemma foldl_alternativeNameStep:
  "foldl (alternativeNameStep pat mv) ms tm = writeTargets (matchedTargets tm pat) (mv * (1 / 2)) ms"
  unfolding matchedTargets_def
  by (induction tm arbitrary: ms) (simp_all add: alternativeNameStep_def writeTargets_append)

lemma foldl_patterns:
  "foldl (\<lambda>ms' pat. foldl (alternativeNameStep pat mv) ms' tm) ms pats =
     writeTargets (concat (map (matchedTargets tm) pats)) (mv * (1 / 2)) ms"
  by (induction pats arbitrary: ms) (simp_all add: foldl_alternativeNameStep writeTargets_append)

lemma applyAlternativeMorphs_write:
  "applyAlternativeMorphs tm w ms =
     writeTargets (concat (map (matchedTargets tm) alternativeMorphPatterns)) (mouthValueOf w * (1 / 2)) ms"
  by (simp add: applyAlternativeMorphs_def Let_def foldl_patterns)

lemma matchedTargets_iff:
  "t \<in> set (matchedTargets tm pat) \<longleftrightarrow>
     (\<exists>entry \<in> set tm. includesStr (toLowerCase (fst entry)) pat \<and> t \<in> set (snd entry))"
  by (auto simp: matchedTargets_def split: if_splits)

lemma includesStr_map: "includesStr s pat \<Longrightarrow> includesStr (map f s) (map f pat)"
proof (induction s)
  case Nil
  then show ?case by simp
next
  case (Cons c cs)
  from Cons.prems have "take (length pat) (c # cs) = pat \<or> includesStr cs pat" by simp
  then show ?case
  proof
    assume "take (length pat) (c # cs) = pat"
    then have "take (length (map f pat)) (map f (c # cs)) = map f pat"
      by (metis length_map take_map)
    then show ?thesis by simp
  next
    assume "includesStr cs pat"
    then have "includesStr (map f cs) (map f pat)" by (rule Cons.IH)
    then show ?thesis by simp
  qed
qed

lemma patterns_lower: "pat \<in> set alternativeMorphPatterns \<Longrightarrow> toLowerCase pat = pat"
  by (auto simp: alternativeMorphPatterns_def toLowerCase_def lowerChar_def)

lemma includesStr_toLowerCase:
  assumes "pat \<in> set alternativeMorphPatterns" "includesStr name pat"
  shows "includesStr (toLowerCase name) pat"
  using includesStr_map [OF assms(2), of lowerChar] patterns_lower [OF assms(1)]
  by (simp add: toLowerCase_def)

section \<open>The example avatars\<close>

lemmas build_defs = mapperSetVRM_def buildMorphTargetMap_def buildMeshStep_def pushTarget_def
  newMorphMapper_def engineMapperConfig_def

lemma vrcMapper_fields:
  "mmVrm vrcMapper = Some vrcAvatar"
  "mmConfig vrcMapper = engineMapperConfig"
  "morphTargetMap vrcMapper = [(''vrc.v_aa'', [(0, 0)]), (''vrc.v_e'', [(0, 1)]), (''vrc.v_ih'', [(0, 2)]),
       (''vrc.v_oh'', [(0, 3)]), (''vrc.v_ou'', [(0, 4)]), (''mouth_open'', [(0, 5)])]"
  by (simp_all add: vrcMapper_def build_defs vrcAvatar_def faceMesh_def)

lemma plainMapper_fields:
  "mmVrm plainMapper = Some plainAvatar"
  "mmConfig plainMapper = engineMapperConfig"
  "morphTargetMap plainMapper = [(''mouth_open'', [(0, 0)]), (''Brow_Up'', [(0, 1)])]"
  by (simp_all add: plainMapper_def build_defs plainAvatar_def plainMesh_def)

lemma exprMapper_fields:
  "mmVrm exprMapper = Some exprAvatar"
  "mmConfig exprMapper = engineMapperConfig"
  "morphTargetMap exprMapper = [(''mouth_open'', [(0, 0)]), (''Brow_Up'', [(0, 1)])]"
  by (simp_all add: exprMapper_def build_defs exprAvatar_def plainMesh_def)

lemma exprOffMapper_fields:
  "mmVrm exprOffMapper = Some exprAvatar"
  "mmConfig exprOffMapper = \<lparr>useVRCMorphs = True, useExpressions = False\<rparr>"
  "morphTargetMap exprOffMapper = [(''mouth_open'', [(0, 0)]), (''Brow_Up'', [(0, 1)])]"
  by (simp_all add: exprOffMapper_def build_defs exprAvatar_def plainMesh_def)

lemma univ_vowels: "UNIV = set vowels"
  using vowel.exhaust by (auto simp: vowels_def)

lemma scenario_max: "Max (scenarioWeights ` UNIV) = 4 / 5"
  by (simp add: univ_vowels vowels_def scenarioWeights_def zeroWeights_def)

lemma mouth_includes: "includesStr ''mouth_open'' ''mouth''"
  by simp

lemma not_has_vrc: "\<not> hasVRCMorphs plainMapper" "\<not> hasVRCMorphs exprMapper" "\<not> hasVRCMorphs exprOffMapper"
  by (simp_all add: hasVRCMorphs_def plainMapper_fields exprMapper_fields exprOffMapper_fields vrcVowelMorphs_def)

lemma plain_sink: "hasSink (meshes plainAvatar) 0" "hasSink (meshes exprAvatar) 0" "hasSink (meshes vrcAvatar) 0"
  by (simp_all add: hasSink_def plainAvatar_def exprAvatar_def vrcAvatar_def plainMesh_def faceMesh_def)

lemma strategy1_vrc:
  "fst (strategy1 oneHot vrcMapper vrcAvatar)"
  "readInfluence (snd (strategy1 oneHot vrcMapper vrcAvatar)) 0 0 = Some 1"
  "readInfluence (snd (strategy1 oneHot vrcMapper vrcAvatar)) 0 1 = Some 0"
  "readInfluence (snd (strategy1 oneHot vrcMapper vrcAvatar)) 0 5 = Some 0"
  by (simp_all add: strategy1_def vrcMapper_fields engineMapperConfig_def applyVRCMorphs_def vowels_def
       vrcVowelStep_def vrcTargetStep_def hasVrcMorphs_def vrcVowelMorphs_def vrcAvatar_def faceMesh_def
       setInfluence_def readInfluence_def oneHot_def zeroWeights_def zeroInfluences_def)


section \<open>The engine: ticks, start and the test sequence\<close>

lemma analyze_uninitialised: "analyser a = None \<Longrightarrow> analyze spectrum a = (Inr None, a)"
  by (simp add: analyze_def)

lemma animate_uninitialised:
  assumes "analyser (audioAnalyzer s) = None"
  shows "fst (animate tick s) = None"
    and "smoothedWeights (snd (animate tick s)) = smoothedWeights s"
    and "morphMapper (snd (animate tick s)) = morphMapper s"
    and "audioAnalyzer (snd (animate tick s)) = audioAnalyzer s"
    and "isRunning (snd (animate tick s)) = isRunning s"
    and "vrmBound (snd (animate tick s)) = vrmBound s"
  using assms by (simp_all add: animate_def Let_def analyze_uninitialised)

lemma runTicks_uninitialised:
  assumes "analyser (audioAnalyzer s) = None"
  shows "smoothedWeights (runTicks ticks s) = smoothedWeights s
       \<and> morphMapper (runTicks ticks s) = morphMapper s
       \<and> audioAnalyzer (runTicks ticks s) = audioAnalyzer s
       \<and> isRunning (runTicks ticks s) = isRunning s
       \<and> vrmBound (runTicks ticks s) = vrmBound s"
  using assms
proof (induction ticks arbitrary: s)
  case Nil
  then show ?case by (simp add: runTicks_def)
next
  case (Cons tick ticks)
  have "analyser (audioAnalyzer (snd (animate tick s))) = None"
    using Cons.prems by (simp add: animate_uninitialised)
  from Cons.IH [OF this] show ?case
    using Cons.prems by (simp add: runTicks_def animate_uninitialised)
qed

lemma updateConfig_smoothing:
  assumes "smoothingOpt config = Some x"
  shows "audioAnalyzer (updateConfig config s) = newAudioAnalyzer (engineAnalyzerConfig x)"
    and "smoothedWeights (updateConfig config s) = smoothedWeights s"
    and "morphMapper (updateConfig config s) = morphMapper s"
    and "isRunning (updateConfig config s) = isRunning s"
    and "vrmBound (updateConfig config s) = vrmBound s"
    and "smoothing (lsConfig (updateConfig config s)) = x"
  using assms by (simp_all add: updateConfig_def assignConfig_def Let_def)

lemma new_analyzer_fields:
  "analyser (newAudioAnalyzer cfg) = None" "dataArray (newAudioAnalyzer cfg) = None"
  "audioContext (newAudioAnalyzer cfg) = None" "source (newAudioAnalyzer cfg) = None"
  by (simp_all add: newAudioAnalyzer_def)

lemma initialize_ok:
  assumes "audioContext a = None" "newContext env = Some fresh" "ctxState fresh = Running"
    and "sourceOk env"
  shows "fst (initialize el env a) = None"
    and "analyser (snd (initialize el env a)) = Some ()"
    and "audioContext (snd (initialize el env a)) = Some fresh"
    and "source (snd (initialize el env a)) = Some el"
    and "dataArray (snd (initialize el env a)) \<noteq> None"
  using assms by (simp_all add: initialize_def Let_def)

lemma animate_ready:
  assumes "audioContext (audioAnalyzer s) \<noteq> None"
  shows "fst (animate tick s) = None"
    and "analyser (audioAnalyzer (snd (animate tick s))) = analyser (audioAnalyzer s)"
  using assms
  by (auto simp: animate_def Let_def analyze_def processLipSync_def smoothToSilence_def
      split: option.splits sum.splits)

lemma first_animate_case:
  "fst p = None \<Longrightarrow>
   (case p of (Some e, s3) \<Rightarrow> (False, s3) | (None, s3) \<Rightarrow> (True, s3)) = (True, snd p)"
  by (cases p) auto

lemma start_from:
  assumes "audioContext (audioAnalyzer s1) = None" "newContext env = Some fresh"
    and "ctxState fresh = Running" "sourceOk env"
  shows "\<exists>s2. (case fst (initialize el env (audioAnalyzer s1)) of
                 Some e \<Rightarrow> (False, s1\<lparr>audioAnalyzer := snd (initialize el env (audioAnalyzer s1))\<rparr>)
               | None \<Rightarrow>
                   (case animate tick (s1\<lparr>audioAnalyzer := snd (initialize el env (audioAnalyzer s1)),
                                           isRunning := True\<rparr>) of
                      (Some e, s3) \<Rightarrow> (False, s3)
                    | (None, s3) \<Rightarrow> (True, s3)))
              = (True, snd (animate tick s2))
            \<and> audioContext (audioAnalyzer s2) \<noteq> None
            \<and> analyser (audioAnalyzer s2) = Some ()"
proof -
  note init = initialize_ok [OF assms, of el]
  let ?s2 = "s1\<lparr>audioAnalyzer := snd (initialize el env (audioAnalyzer s1)), isRunning := True\<rparr>"
  have ready: "audioContext (audioAnalyzer ?s2) \<noteq> None" using init(3) by simp
  have "fst (animate tick ?s2) = None" by (rule animate_ready(1) [OF ready])
  then show ?thesis
    using init(1,2) ready by (intro exI [of _ ?s2]) (simp add: first_animate_case)
qed

lemma start_after_update:
  assumes "vrmBound s" "audioContext (audioAnalyzer s) = None" "newContext env = Some fresh"
    and "ctxState fresh = Running" "sourceOk env"
  shows "fst (start el env tick s)
       \<and> analyser (audioAnalyzer (snd (start el env tick s))) = Some ()"
proof -
  have "audioContext (audioAnalyzer (stop s)) = None"
    using assms(2) by (simp add: stop_fields dispose_def Let_def)
  from start_from [OF this assms(3,4,5), where el = el and tick = tick]
    start_from [OF assms(2,3,4,5), where el = el and tick = tick]
  obtain s2 where "start el env tick s = (True, snd (animate tick s2))"
    and r: "audioContext (audioAnalyzer s2) \<noteq> None" "analyser (audioAnalyzer s2) = Some ()"
    using assms(1) by (cases "isRunning s") (auto simp: start_def Let_def)
  then show ?thesis using animate_ready(2) [OF r(1), of tick] by simp
qed

lemma testVowel_flag: "testVowel n x (s\<lparr>isRunning := b\<rparr>) = (testVowel n x s)\<lparr>isRunning := b\<rparr>"
  by (simp add: testVowel_def Let_def)

lemma runTestStep_flag: "runTestStep (s\<lparr>isRunning := b\<rparr>) step = (runTestStep s step)\<lparr>isRunning := b\<rparr>"
  by (cases step) (simp_all add: testVowel_flag)

lemma runTestSteps_flag: "runTestSteps steps (s\<lparr>isRunning := b\<rparr>) = (runTestSteps steps s)\<lparr>isRunning := b\<rparr>"
  unfolding runTestSteps_def by (induction steps arbitrary: s) (simp_all add: runTestStep_flag)

section \<open>The example avatars under the mapper and the engine\<close>

lemma vrcMapper_face: "vrcMapper = faceMapper (zeroInfluences 6) 0"
  by (simp add: faceMapper_def vrcMapper_def build_defs vrcAvatar_def faceMesh_def)

lemma faceMapper_fields:
  "mmVrm (faceMapper infl n) = Some \<lparr>meshes = [faceMesh\<lparr>morphTargetInfluences := Some infl\<rparr>],
                               expressionManager = None, vrmUpdates = n\<rparr>"
  "mmConfig (faceMapper infl n) = engineMapperConfig"
  "morphTargetMap (faceMapper infl n) = morphTargetMap vrcMapper"
  by (simp_all add: faceMapper_def vrcMapper_fields)

lemma faceMapper_apply:
  "applyVowelWeights w (faceMapper infl n) =
     faceMapper (infl(0 \<mapsto> w AA, 1 \<mapsto> w E, 2 \<mapsto> w IH, 3 \<mapsto> w OH, 4 \<mapsto> w OU)) (Suc n)"
  by (simp add: applyVowelWeights_def faceMapper_def vrcMapper_fields engineMapperConfig_def Let_def
      applyVRCMorphs_def vowels_def vrcVowelStep_def vrcTargetStep_def hasVrcMorphs_def
      vrcVowelMorphs_def faceMesh_def setInfluence_def vrmUpdate_def)

lemma faceMapper_reset:
  "reset (faceMapper infl n) =
     faceMapper (infl(0 \<mapsto> 0, 1 \<mapsto> 0, 2 \<mapsto> 0, 3 \<mapsto> 0, 4 \<mapsto> 0)) (Suc n)"
  by (simp add: reset_def faceMapper_def vrcMapper_fields Let_def resetNameStep_def
      vrcVowelMorphs_def writeTargets_def setInfluence_def vrmUpdate_def faceMesh_def)

lemma faceMapper_read:
  "readInfluence [faceMesh\<lparr>morphTargetInfluences := Some infl\<rparr>] 0 idx = infl idx"
  by (simp add: readInfluence_def)

lemma vrcTargets_face:
  "vrcTargets (morphTargetMap vrcMapper) = [(0, 0), (0, 1), (0, 2), (0, 3), (0, 4)]"
  by (simp add: vrcTargets_def targetsOf_def vrcMapper_fields vrcVowelMorphs_def)

lemma first_steps:
  "take 4 testSequenceSteps =
     [TestVowel ''aa'' 0, TestVowel ''aa'' (1 / 10), TestVowel ''aa'' (2 / 10), TestVowel ''aa'' (3 / 10)]"
  by (simp add: testSequenceSteps_def vowels_def rampWeight_def upt_rec)

lemma engineAnalyzerConfig_default: "engineAnalyzerConfig (fl (8 / 10)) = defaultAnalyzerConfig"
  by (simp add: engineAnalyzerConfig_def defaultAnalyzerConfig_def)

lemma boundEngine_fields:
  "vrmBound boundEngine" "morphMapper boundEngine = vrcMapper" "\<not> isRunning boundEngine"
  "audioAnalyzer boundEngine = newAudioAnalyzer defaultAnalyzerConfig"
  "smoothedWeights boundEngine = zeroWeights" "lsConfig boundEngine = lsConfig defaultEngine"
  "lastUpdateTime boundEngine = 0"
  by (simp_all add: boundEngine_def setVRM_def defaultEngine_def newLipSyncEngine_def noConfig_def
      vrcMapper_def engineMapperConfig_def engineAnalyzerConfig_def defaultAnalyzerConfig_def)

lemma aa_key: "vowelOfKey ''aa'' = Some AA"
  by (simp add: vowelOfKey_def vowels_def)

lemma testVowel_face:
  assumes "vrmBound s" "morphMapper s = faceMapper infl n"
  shows "vrmBound (testVowel ''aa'' x s)"
    and "morphMapper (testVowel ''aa'' x s) =
           faceMapper (infl(0 \<mapsto> x, 1 \<mapsto> 0, 2 \<mapsto> 0, 3 \<mapsto> 0, 4 \<mapsto> 0)) (Suc n)"
  using assms by (simp_all add: testVowel_def aa_key Let_def faceMapper_apply zeroWeights_def)

lemma stop_face:
  assumes "morphMapper s = faceMapper infl n"
  shows "morphMapper (stop s) = faceMapper (infl(0 \<mapsto> 0, 1 \<mapsto> 0, 2 \<mapsto> 0, 3 \<mapsto> 0, 4 \<mapsto> 0)) (Suc n)"
  using assms by (simp add: stop_fields faceMapper_reset)

lemma sinkOf_face: "morphMapper s = faceMapper infl n \<Longrightarrow> sinkOf s 0 idx = infl idx"
  by (simp add: sinkOf_def faceMapper_fields faceMapper_read)

lemma midSequence_fields:
  "vrmBound midSequence"
  "\<exists>infl. morphMapper midSequence = faceMapper infl 3 \<and> infl 0 = Some (2 / 10)"
proof -
  have steps: "take 3 testSequenceSteps = [TestVowel ''aa'' 0, TestVowel ''aa'' (1 / 10), TestVowel ''aa'' (2 / 10)]"
    using arg_cong [OF first_steps, of "take 3"] by simp
  let ?s1 = "testVowel ''aa'' 0 boundEngine"
  let ?s2 = "testVowel ''aa'' (1 / 10) ?s1"
  let ?s3 = "testVowel ''aa'' (2 / 10) ?s2"
  have m: "midSequence = ?s3" by (simp add: midSequence_def steps runTestSteps_def)
  have b: "morphMapper boundEngine = faceMapper (zeroInfluences 6) 0"
    by (simp add: boundEngine_fields vrcMapper_face)
  note t1 = testVowel_face [OF boundEngine_fields(1) b, of 0]
  note t2 = testVowel_face [OF t1, of "1 / 10"]
  note t3 = testVowel_face [OF t2, of "2 / 10"]
  show "vrmBound midSequence" unfolding m by (rule t3(1))
  have "\<exists>infl. morphMapper ?s3 = faceMapper infl (Suc (Suc (Suc 0))) \<and> infl 0 = Some (2 / 10)"
    by (rule exI, rule conjI, rule t3(2)) simp
  then show "\<exists>infl. morphMapper midSequence = faceMapper infl 3 \<and> infl 0 = Some (2 / 10)"
    unfolding m by (simp add: numeral_3_eq_3)
qed

lemma applyVowelWeights_frame [simp]:
  "morphTargetMap (applyVowelWeights w m) = morphTargetMap m"
  "mmConfig (applyVowelWeights w m) = mmConfig m"
  by (simp_all add: applyVowelWeights_def Let_def split: option.splits)

lemma fallback_read:
  assumes vrm: "mmVrm m = Some vrm"
    and s1: "\<not> fst (strategy1 w m vrm)"
    and s2: "useExpressions (mmConfig m) \<longrightarrow> expressionManager vrm = None"
    and entry: "(name, targets) \<in> set (morphTargetMap m)"
    and pat: "pat \<in> set alternativeMorphPatterns" "includesStr (toLowerCase name) pat"
    and sink: "(mid, idx) \<in> set targets" "hasSink (meshes vrm) mid"
  shows "mmVrm (applyVowelWeights w m) =
           Some (vrmUpdate (vrm\<lparr>meshes := applyAlternativeMorphs (morphTargetMap m) w (meshes vrm)\<rparr>))"
    and "readInfluence (applyAlternativeMorphs (morphTargetMap m) w (meshes vrm)) mid idx
           = Some (Max (w ` UNIV) * (1 / 2))"
proof -
  show "mmVrm (applyVowelWeights w m) =
           Some (vrmUpdate (vrm\<lparr>meshes := applyAlternativeMorphs (morphTargetMap m) w (meshes vrm)\<rparr>))"
    using applyVowelWeights_cases [OF vrm, of w] s1 s2 by (cases "useExpressions (mmConfig m)") simp_all
  have "(mid, idx) \<in> set (matchedTargets (morphTargetMap m) pat)"
    using entry pat(2) sink(1) by (force simp: matchedTargets_iff)
  then have "(mid, idx) \<in> set (concat (map (matchedTargets (morphTargetMap m)) alternativeMorphPatterns))"
    using pat(1) by auto
  then have "readInfluence (applyAlternativeMorphs (morphTargetMap m) w (meshes vrm)) mid idx
               = Some (mouthValueOf w * (1 / 2))"
    using sink(2) by (simp add: applyAlternativeMorphs_write readInfluence_writeTargets)
  then show "readInfluence (applyAlternativeMorphs (morphTargetMap m) w (meshes vrm)) mid idx
           = Some (Max (w ` UNIV) * (1 / 2))"
    by (simp add: mouthValueOf_def univ_vowels)
qed

lemma plain_fallback:
  "mmVrm (applyVowelWeights scenarioWeights plainMapper) =
     Some (vrmUpdate (plainAvatar\<lparr>meshes := applyAlternativeMorphs (morphTargetMap plainMapper) scenarioWeights (meshes plainAvatar)\<rparr>))"
  "readInfluence (applyAlternativeMorphs (morphTargetMap plainMapper) scenarioWeights (meshes plainAvatar)) 0 0 = Some (2 / 5)"
proof -
  have s1: "\<not> fst (strategy1 scenarioWeights plainMapper plainAvatar)"
    by (simp add: strategy1_def applyVRCMorphs_absent [OF not_has_vrc(1)])
  have e: "(''mouth_open'', [(0, 0)]) \<in> set (morphTargetMap plainMapper)"
    by (simp add: plainMapper_fields)
  have p: "''mouth'' \<in> set alternativeMorphPatterns" by (simp add: alternativeMorphPatterns_def)
  have l: "includesStr (toLowerCase ''mouth_open'') ''mouth''"
    using p mouth_includes by (rule includesStr_toLowerCase)
  have x: "useExpressions (mmConfig plainMapper) \<longrightarrow> expressionManager plainAvatar = None"
    by (simp add: plainAvatar_def)
  have t: "(0, 0) \<in> set [(0 :: nat, 0 :: nat)]" by simp
  note f = fallback_read [OF plainMapper_fields(1) s1 x e p l t plain_sink(1)]
  show "mmVrm (applyVowelWeights scenarioWeights plainMapper) =
     Some (vrmUpdate (plainAvatar\<lparr>meshes := applyAlternativeMorphs (morphTargetMap plainMapper) scenarioWeights (meshes plainAvatar)\<rparr>))"
    using f(1) by simp
  show "readInfluence (applyAlternativeMorphs (morphTargetMap plainMapper) scenarioWeights (meshes plainAvatar)) 0 0 = Some (2 / 5)"
    using f(2) by (simp add: scenario_max)
qed

lemma expr_strategy1: "\<not> fst (strategy1 w exprMapper exprAvatar)" "\<not> fst (strategy1 w exprOffMapper exprAvatar)"
  by (simp_all add: strategy1_def applyVRCMorphs_absent [OF not_has_vrc(2)]
      applyVRCMorphs_absent [OF not_has_vrc(3)])

lemma applyExpressions_aa:
  "exprValues (applyExpressions w em) ''aa'' = Some (w AA)"
  "exprUpdates (applyExpressions w em) = exprUpdates em + 1"
  by (simp_all add: applyExpressions_def exprUpdate_def setValue_def vowels_def)

lemma expr_applied:
  "mmVrm (applyVowelWeights scenarioWeights exprMapper) =
     Some (vrmUpdate (exprAvatar\<lparr>expressionManager :=
        Some (applyExpressions scenarioWeights \<lparr>exprValues = Map.empty, exprUpdates = 0\<rparr>)\<rparr>))"
  using applyVowelWeights_cases [OF exprMapper_fields(1), of scenarioWeights] expr_strategy1(1) [of scenarioWeights]
  by (simp add: exprMapper_fields engineMapperConfig_def exprAvatar_def)

lemma analyze_snd:
  "analyser a \<noteq> None \<Longrightarrow> dataArray a \<noteq> None \<Longrightarrow>
   snd (analyze spectrum a) = a\<lparr>dataArray := Some spectrum\<rparr>"
  by (auto simp: analyze_def Let_def split: option.splits)

lemma processLipSync_frame:
  "isRunning (processLipSync a s) = isRunning s"
  "vrmBound (processLipSync a s) = vrmBound s"
  "audioAnalyzer (processLipSync a s) = audioAnalyzer s"
  by (simp_all add: processLipSync_def smoothToSilence_def Let_def)

lemma initialize_new:
  "initialize 0 browser (newAudioAnalyzer defaultAnalyzerConfig) = (None, readyAnalyzer)"
  by (simp add: readyAnalyzer_def initialize_def newAudioAnalyzer_def browserContext_def
      browser_def Let_def)

lemma runningEngine_eq:
  "runningEngine =
     processLipSync speechFrame
       (boundEngine\<lparr>isRunning := True, animationFrame := 1, lastUpdateTime := 1000,
                    audioAnalyzer := readyAnalyzer\<lparr>dataArray := Some speechSpectrum\<rparr>\<rparr>)"
proof -
  have a: "analyze speechSpectrum readyAnalyzer
             = (Inr (Some speechFrame), readyAnalyzer\<lparr>dataArray := Some speechSpectrum\<rparr>)"
    using analyze_speech analyze_snd [of readyAnalyzer speechSpectrum]
    by (simp add: readyAnalyzer_fields prod_eq_iff)
  show ?thesis
    by (simp add: runningEngine_def start_def boundEngine_fields initialize_new Let_def
        animate_def firstTick_def defaultEngine_config a)
qed

lemma runningEngine_fields:
  "isRunning runningEngine" "vrmBound runningEngine"
  "analyser (audioAnalyzer runningEngine) = Some ()"
  "0 < smoothedWeights runningEngine AA"
proof -
  show "isRunning runningEngine" "vrmBound runningEngine"
    "analyser (audioAnalyzer runningEngine) = Some ()"
    by (simp_all add: runningEngine_eq processLipSync_frame boundEngine_fields readyAnalyzer_fields)
  let ?s0 = "boundEngine\<lparr>isRunning := True, animationFrame := 1, lastUpdateTime := 1000,
                    audioAnalyzer := readyAnalyzer\<lparr>dataArray := Some speechSpectrum\<rparr>\<rparr>"
  have c: "lsConfig ?s0 = lsConfig defaultEngine" by (simp add: boundEngine_fields)
  have loud: "\<not> fl (volume speechFrame * 100) < minVolume (lsConfig ?s0)"
    using speech_loud by (simp add: boundEngine_fields)
  have "smoothedWeights runningEngine AA
      = lerp 0 (targetWeight speechFrame defaultEngine AA) (fl (1 - fl (4 / 5)))"
    unfolding runningEngine_eq processLipSync_loud_weights [OF loud] targetWeight_config [OF c]
    by (simp add: boundEngine_fields defaultEngine_config zeroWeights_def)
  then show "0 < smoothedWeights runningEngine AA" using speech_first_weight by simp
qed





lemma runTestSteps_idle: "\<not> isRunning s \<Longrightarrow> \<not> isRunning (runTestSteps steps s)"
proof (induction steps arbitrary: s)
  case Nil
  then show ?case by (simp add: runTestSteps_def)
next
  case (Cons step steps)
  have "\<not> isRunning (runTestStep s step)"
    using Cons.prems by (cases step) (simp_all add: testVowel_def Let_def)
  from Cons.IH [OF this] show ?case by (simp add: runTestSteps_def)
qed

section \<open>The claims about the mapper\<close>

text \<open>
  Claim C3, as the code has it. In every call of \<open>applyVowelWeights\<close> on a bound avatar:
  if the direct vowel-channel strategy writes at least one channel (its flag
  \<open>vrcMorphsApplied\<close> is set), the result is the meshes as that strategy left them and the
  recompute, so neither the expression strategy nor the heuristic fallback writes
  anything; and if it wrote nothing, the option \<open>useExpressions\<close> is on and the
  expression-weight interface exists, the result is the expression strategy and the
  recompute, with the meshes untouched, so the heuristic fallback does not run.
\<close>

theorem C3_strategy_short_circuit:
  assumes "mmVrm m = Some vrm"
  shows "(fst (strategy1 w m vrm) \<longrightarrow>
            mmVrm (applyVowelWeights w m)
              = Some (vrmUpdate (vrm\<lparr>meshes := snd (strategy1 w m vrm)\<rparr>)))
       \<and> (\<not> fst (strategy1 w m vrm) \<and> useExpressions (mmConfig m)
             \<and> expressionManager vrm \<noteq> None \<longrightarrow>
            (\<exists>em. expressionManager vrm = Some em
               \<and> mmVrm (applyVowelWeights w m)
                    = Some (vrmUpdate (vrm\<lparr>expressionManager := Some (applyExpressions w em)\<rparr>))))"
  using applyVowelWeights_cases [OF assms, of w] by auto

theorem C3_witness:
  "fst (strategy1 oneHot vrcMapper vrcAvatar)
   \<and> (\<exists>vrm'. mmVrm (applyVowelWeights oneHot vrcMapper) = Some vrm'
         \<and> readInfluence (meshes vrm') 0 0 = Some 1
         \<and> readInfluence (meshes vrm') 0 1 = Some 0
         \<and> readInfluence (meshes vrm') 0 5 = Some 0
         \<and> expressionManager vrm' = None)
   \<and> \<not> fst (strategy1 scenarioWeights exprMapper exprAvatar)
   \<and> useExpressions (mmConfig exprMapper)
   \<and> expressionManager exprAvatar \<noteq> None
   \<and> (\<exists>vrm' em'. mmVrm (applyVowelWeights scenarioWeights exprMapper) = Some vrm'
         \<and> meshes vrm' = meshes exprAvatar
         \<and> expressionManager vrm' = Some em'
         \<and> exprValues em' ''aa'' = Some (8 / 10))"
proof -
  note a = C3_strategy_short_circuit [OF vrcMapper_fields(1), of oneHot]
  note b = C3_strategy_short_circuit [OF exprMapper_fields(1), of scenarioWeights]
  have 1: "\<exists>vrm'. mmVrm (applyVowelWeights oneHot vrcMapper) = Some vrm'
         \<and> readInfluence (meshes vrm') 0 0 = Some 1
         \<and> readInfluence (meshes vrm') 0 1 = Some 0
         \<and> readInfluence (meshes vrm') 0 5 = Some 0
         \<and> expressionManager vrm' = None"
    using a strategy1_vrc by (simp add: vrmUpdate_def vrcAvatar_def)
  have u: "useExpressions (mmConfig exprMapper)" "expressionManager exprAvatar \<noteq> None"
    by (simp_all add: exprMapper_fields engineMapperConfig_def exprAvatar_def)
  have 2: "\<exists>vrm' em'. mmVrm (applyVowelWeights scenarioWeights exprMapper) = Some vrm'
         \<and> meshes vrm' = meshes exprAvatar
         \<and> expressionManager vrm' = Some em'
         \<and> exprValues em' ''aa'' = Some (8 / 10)"
    using b expr_strategy1(1) [of scenarioWeights] u
    by (auto simp: vrmUpdate_def applyExpressions_aa scenarioWeights_def zeroWeights_def)
  from 1 2 u strategy1_vrc(1) expr_strategy1(1) show ?thesis by blast
qed

text \<open>
  The claim's second part fails for a mapper constructed with \<open>useExpressions: false\<close>: the
  expression-weight interface exists, yet the heuristic fallback runs and writes
  \<open>mouth_open\<close>, and the expression weights stay as they were.
\<close>

theorem C3_counterexample:
  "mmVrm exprOffMapper = Some exprAvatar
   \<and> expressionManager exprAvatar \<noteq> None
   \<and> readInfluence (meshes exprAvatar) 0 0 = Some 0
   \<and> (\<exists>vrm'. mmVrm (applyVowelWeights scenarioWeights exprOffMapper) = Some vrm'
         \<and> readInfluence (meshes vrm') 0 0 = Some (2 / 5)
         \<and> expressionManager vrm' = expressionManager exprAvatar)"
proof -
  have e: "(''mouth_open'', [(0, 0)]) \<in> set (morphTargetMap exprOffMapper)"
    by (simp add: exprOffMapper_fields)
  have p: "''mouth'' \<in> set alternativeMorphPatterns" by (simp add: alternativeMorphPatterns_def)
  have l: "includesStr (toLowerCase ''mouth_open'') ''mouth''"
    using p mouth_includes by (rule includesStr_toLowerCase)
  have x: "useExpressions (mmConfig exprOffMapper) \<longrightarrow> expressionManager exprAvatar = None"
    by (simp add: exprOffMapper_fields)
  have t: "(0, 0) \<in> set [(0 :: nat, 0 :: nat)]" by simp
  note f = fallback_read [OF exprOffMapper_fields(1) expr_strategy1(2) x e p l t plain_sink(2),
      of scenarioWeights]
  have "readInfluence (meshes exprAvatar) 0 0 = Some 0"
    by (simp add: readInfluence_def exprAvatar_def plainMesh_def zeroInfluences_def)
  moreover have "expressionManager exprAvatar \<noteq> None" by (simp add: exprAvatar_def)
  ultimately show ?thesis
    using f by (simp add: exprOffMapper_fields(1) vrmUpdate_def scenario_max)
qed

text \<open>
  Claim C7. \<open>reset\<close> on a bound avatar writes 0 to every sink of a target that the map
  gives for one of the five direct vowel-channel names; when the expression-weight
  interface exists it sets the five canonical expression names to 0 and updates the
  interface; it triggers the avatar recompute once; and every sink that is not such a
  target, in particular every channel that only the heuristic fallback writes, keeps its
  value.
\<close>

theorem C7_reset_zeroes_vowel_channels:
  assumes "mmVrm m = Some vrm"
  shows "\<exists>vrm'. mmVrm (reset m) = Some vrm'
     \<and> (\<forall>t \<in> set (vrcTargets (morphTargetMap m)). hasSink (meshes vrm) (fst t) \<longrightarrow>
           readInfluence (meshes vrm') (fst t) (snd t) = Some 0)
     \<and> (\<forall>em. expressionManager vrm = Some em \<longrightarrow>
           (\<exists>em'. expressionManager vrm' = Some em'
              \<and> (\<forall>n \<in> set canonicalExpressions. exprValues em' n = Some 0)
              \<and> exprUpdates em' = exprUpdates em + 1))
     \<and> vrmUpdates vrm' = vrmUpdates vrm + 1
     \<and> (\<forall>k j. (k, j) \<notin> set (vrcTargets (morphTargetMap m)) \<longrightarrow>
           readInfluence (meshes vrm') k j = readInfluence (meshes vrm) k j)"
proof -
  let ?vrm' = "vrmUpdate (vrm\<lparr>meshes := writeTargets (vrcTargets (morphTargetMap m)) 0 (meshes vrm),
                 expressionManager := map_option resetExpressions (expressionManager vrm)\<rparr>)"
  have 1: "mmVrm (reset m) = Some ?vrm'" by (rule reset_meshes [OF assms])
  have ms: "meshes ?vrm' = writeTargets (vrcTargets (morphTargetMap m)) 0 (meshes vrm)"
    by (simp add: vrmUpdate_def)
  have 2: "\<forall>t \<in> set (vrcTargets (morphTargetMap m)). hasSink (meshes vrm) (fst t) \<longrightarrow>
           readInfluence (meshes ?vrm') (fst t) (snd t) = Some 0"
    unfolding ms by (simp add: readInfluence_writeTargets)
  have 3: "\<forall>em. expressionManager vrm = Some em \<longrightarrow>
           (\<exists>em'. expressionManager ?vrm' = Some em'
              \<and> (\<forall>n \<in> set canonicalExpressions. exprValues em' n = Some 0)
              \<and> exprUpdates em' = exprUpdates em + 1)"
    by (simp add: vrmUpdate_def resetExpressions_values resetExpressions_updates)
  have 4: "vrmUpdates ?vrm' = vrmUpdates vrm + 1" by (simp add: vrmUpdate_def)
  have 5: "\<forall>k j. (k, j) \<notin> set (vrcTargets (morphTargetMap m)) \<longrightarrow>
           readInfluence (meshes ?vrm') k j = readInfluence (meshes vrm) k j"
    unfolding ms by (simp add: readInfluence_writeTargets)
  from 1 2 3 4 5 show ?thesis by blast
qed

theorem C7_witness:
  "(\<exists>vrm. mmVrm (applyVowelWeights oneHot vrcMapper) = Some vrm
        \<and> readInfluence (meshes vrm) 0 0 = Some 1 \<and> hasSink (meshes vrm) 0)
   \<and> (0, 0) \<in> set (vrcTargets (morphTargetMap (applyVowelWeights oneHot vrcMapper)))
   \<and> (\<exists>vrm'. mmVrm (reset (applyVowelWeights oneHot vrcMapper)) = Some vrm'
        \<and> readInfluence (meshes vrm') 0 0 = Some 0 \<and> vrmUpdates vrm' = 2)
   \<and> (\<exists>vrm. mmVrm (applyVowelWeights scenarioWeights plainMapper) = Some vrm
        \<and> readInfluence (meshes vrm) 0 0 = Some (2 / 5))
   \<and> (0, 0) \<notin> set (vrcTargets (morphTargetMap (applyVowelWeights scenarioWeights plainMapper)))
   \<and> (\<exists>vrm'. mmVrm (reset (applyVowelWeights scenarioWeights plainMapper)) = Some vrm'
        \<and> readInfluence (meshes vrm') 0 0 = Some (2 / 5))
   \<and> (\<exists>vrm em. mmVrm (applyVowelWeights scenarioWeights exprMapper) = Some vrm
        \<and> expressionManager vrm = Some em \<and> exprValues em ''aa'' = Some (8 / 10))
   \<and> (\<exists>vrm' em'. mmVrm (reset (applyVowelWeights scenarioWeights exprMapper)) = Some vrm'
        \<and> expressionManager vrm' = Some em' \<and> exprValues em' ''aa'' = Some 0
        \<and> exprUpdates em' = 2)"
proof -
  let ?talk = "applyVowelWeights oneHot vrcMapper"
  let ?fall = "applyVowelWeights scenarioWeights plainMapper"
  let ?expr = "applyVowelWeights scenarioWeights exprMapper"
  obtain infl where talk: "?talk = faceMapper infl 1" and i0: "infl 0 = Some 1"
    by (simp add: vrcMapper_face faceMapper_apply oneHot_def zeroWeights_def)
  let ?v1 = "\<lparr>meshes = [faceMesh\<lparr>morphTargetInfluences := Some infl\<rparr>],
              expressionManager = None, vrmUpdates = 1\<rparr>"
  have v1: "mmVrm ?talk = Some ?v1" by (simp add: talk faceMapper_fields)
  have s1: "hasSink (meshes ?v1) 0" by (simp add: hasSink_def)
  have r1: "readInfluence (meshes ?v1) 0 0 = Some 1" by (simp add: faceMapper_read i0)
  have t1: "(0, 0) \<in> set (vrcTargets (morphTargetMap ?talk))" by (simp add: vrcTargets_face)
  from C7_reset_zeroes_vowel_channels [OF v1] t1 s1
  have a: "\<exists>vrm'. mmVrm (reset ?talk) = Some vrm'
        \<and> readInfluence (meshes vrm') 0 0 = Some 0 \<and> vrmUpdates vrm' = 2"
    by fastforce
  let ?v2 = "vrmUpdate (plainAvatar\<lparr>meshes := applyAlternativeMorphs (morphTargetMap plainMapper) scenarioWeights (meshes plainAvatar)\<rparr>)"
  have v2: "mmVrm ?fall = Some ?v2" by (rule plain_fallback(1))
  have r2: "readInfluence (meshes ?v2) 0 0 = Some (2 / 5)"
    using plain_fallback(2) by (simp add: vrmUpdate_def)
  have t2: "(0, 0) \<notin> set (vrcTargets (morphTargetMap ?fall))"
    by (simp add: vrcTargets_def targetsOf_def plainMapper_fields vrcVowelMorphs_def)
  from C7_reset_zeroes_vowel_channels [OF v2] t2 r2
  have b: "\<exists>vrm'. mmVrm (reset ?fall) = Some vrm' \<and> readInfluence (meshes vrm') 0 0 = Some (2 / 5)"
    by fastforce
  let ?em = "applyExpressions scenarioWeights \<lparr>exprValues = Map.empty, exprUpdates = 0\<rparr>"
  let ?v3 = "vrmUpdate (exprAvatar\<lparr>expressionManager := Some ?em\<rparr>)"
  have v3: "mmVrm ?expr = Some ?v3" by (rule expr_applied)
  have e3: "expressionManager ?v3 = Some ?em" by (simp add: vrmUpdate_def)
  have x3: "exprValues ?em ''aa'' = Some (8 / 10)" "exprUpdates ?em = 1"
    by (simp_all add: applyExpressions_aa scenarioWeights_def zeroWeights_def)
  have c3: "''aa'' \<in> set canonicalExpressions" by (simp add: canonicalExpressions_def)
  from C7_reset_zeroes_vowel_channels [OF v3] e3 x3 c3
  have c: "\<exists>vrm' em'. mmVrm (reset ?expr) = Some vrm'
        \<and> expressionManager vrm' = Some em' \<and> exprValues em' ''aa'' = Some 0 \<and> exprUpdates em' = 2"
    by fastforce
  from v1 r1 s1 t1 a v2 r2 t2 b v3 e3 x3 c show ?thesis by blast
qed

text \<open>
  Claim C9. For a bound avatar with none of the five direct vowel-channel names in its
  channel map and no expression-weight interface, \<open>applyVowelWeights\<close> leaves in every sink
  of every channel whose name contains one of the keyword patterns the value
  \<open>max(vowelWeights) * 0.5\<close>. (The code matches the lower-cased name, which a name
  containing the pattern satisfies.) The witness is the channel \<open>mouth_open\<close>, which reads
  0.4 after an input whose largest weight is 0.8.
\<close>

theorem C9_heuristic_fallback:
  assumes vrm: "mmVrm m = Some vrm"
    and novrc: "\<not> hasVRCMorphs m"
    and noexpr: "expressionManager vrm = None"
    and entry: "(name, targets) \<in> set (morphTargetMap m)"
    and pat: "pat \<in> set alternativeMorphPatterns" "includesStr name pat"
    and sink: "(mid, idx) \<in> set targets" "hasSink (meshes vrm) mid"
  shows "\<exists>vrm'. mmVrm (applyVowelWeights w m) = Some vrm'
           \<and> readInfluence (meshes vrm') mid idx = Some (Max (w ` UNIV) * (1 / 2))"
proof -
  have s1: "\<not> fst (strategy1 w m vrm)"
    by (simp add: strategy1_def applyVRCMorphs_absent [OF novrc])
  have low: "includesStr (toLowerCase name) pat" using pat by (rule includesStr_toLowerCase)
  have s2: "useExpressions (mmConfig m) \<longrightarrow> expressionManager vrm = None"
    using noexpr by simp
  from fallback_read [OF vrm s1 s2 entry pat(1) low sink]
  show ?thesis by (simp add: vrmUpdate_def)
qed

theorem C9_witness:
  "mmVrm plainMapper = Some plainAvatar
   \<and> \<not> hasVRCMorphs plainMapper
   \<and> expressionManager plainAvatar = None
   \<and> (''mouth_open'', [(0, 0)]) \<in> set (morphTargetMap plainMapper)
   \<and> includesStr ''mouth_open'' ''mouth''
   \<and> Max (scenarioWeights ` UNIV) = 8 / 10
   \<and> (\<exists>vrm'. mmVrm (applyVowelWeights scenarioWeights plainMapper) = Some vrm'
               \<and> readInfluence (meshes vrm') 0 0 = Some (4 / 10))"
proof -
  have n: "expressionManager plainAvatar = None" by (simp add: plainAvatar_def)
  have e: "(''mouth_open'', [(0, 0)]) \<in> set (morphTargetMap plainMapper)"
    by (simp add: plainMapper_fields)
  have p: "''mouth'' \<in> set alternativeMorphPatterns" by (simp add: alternativeMorphPatterns_def)
  have t: "(0, 0) \<in> set [(0 :: nat, 0 :: nat)]" by simp
  from C9_heuristic_fallback [OF plainMapper_fields(1) not_has_vrc(1) n e p mouth_includes t plain_sink(1),
      of scenarioWeights]
  show ?thesis using n e by (simp add: plainMapper_fields(1) not_has_vrc(1) scenario_max)
qed

section \<open>The claims about stop, updateConfig and the test sequence\<close>



lemma uninitialised_dispose: "uninitialised a \<Longrightarrow> uninitialised (dispose a)"
  by (simp add: uninitialised_def dispose_released dispose_def Let_def)

lemma uninitialised_new: "uninitialised (newAudioAnalyzer cfg)"
  by (simp add: uninitialised_def new_analyzer_fields)

lemma untilStart_uninitialised:
  assumes "untilStart s s'" "uninitialised (audioAnalyzer s)"
  shows "uninitialised (audioAnalyzer s')"
  using assms
proof (induction rule: untilStart.induct)
  case (same s)
  then show ?case by simp
next
  case (tick s s' tick)
  then have "analyser (audioAnalyzer s') = None" by (simp add: uninitialised_def)
  from animate_uninitialised(4) [OF this] tick show ?case by simp
next
  case (stop s s')
  then show ?case by (simp add: stop_fields uninitialised_dispose)
next
  case (configure s s' config)
  then show ?case by (simp add: updateConfig_def Let_def uninitialised_new)
next
  case (bind s s' vrm)
  then show ?case by (simp add: setVRM_def)
next
  case (test s s' step)
  then show ?case by (cases step) (simp_all add: testVowel_def Let_def)
qed

lemma untilStart_bound: "untilStart s s' \<Longrightarrow> vrmBound s \<Longrightarrow> vrmBound s'"
proof (induction rule: untilStart.induct)
  case (tick s s' tick)
  then show ?case by (simp add: animate_def Let_def processLipSync_frame split: sum.splits option.splits)
next
  case (test s s' step)
  then show ?case by (cases step) (simp_all add: testVowel_def Let_def)
qed (simp_all add: stop_fields updateConfig_def Let_def setVRM_def)

lemma untilStart_runTicks: "untilStart s (runTicks ticks s)"
proof (induction ticks rule: rev_induct)
  case Nil
  then show ?case by (simp add: runTicks_def untilStart.same)
next
  case (snoc t ticks)
  then show ?case using untilStart.tick [of s "runTicks ticks s" t] by (simp add: runTicks_def)
qed

text \<open>
  Claim C10. If \<open>updateConfig\<close> is called with a \<open>smoothing\<close> field while the engine is
  running, the analyzer is replaced by a new one that is not initialized, and the engine
  stays running. From then on, whatever is called other than \<open>start\<close>, \<open>analyze\<close> returns
  none and a tick raises nothing and leaves the smoothed weights and the mapper, hence
  every channel, as it finds them; in particular they are unchanged over any run of
  ticks. A later \<open>start\<close> on a bound avatar, in a browser that gives a running audio
  context and a source node, succeeds and leaves the analyzer with an analyser node again.
\<close>

theorem C10_update_config_skips_ticks:
  assumes run: "isRunning s" and sm: "smoothingOpt config = Some x"
  shows "audioAnalyzer (updateConfig config s) = newAudioAnalyzer (engineAnalyzerConfig x)
       \<and> \<not> isInitialized (audioAnalyzer (updateConfig config s))
       \<and> isRunning (updateConfig config s)
       \<and> (\<forall>s' tick. untilStart (updateConfig config s) s' \<longrightarrow>
             fst (analyze (tickSpectrum tick) (audioAnalyzer s')) = Inr None
           \<and> fst (animate tick s') = None
           \<and> smoothedWeights (snd (animate tick s')) = smoothedWeights s'
           \<and> morphMapper (snd (animate tick s')) = morphMapper s')
       \<and> (\<forall>ticks. smoothedWeights (runTicks ticks (updateConfig config s)) = smoothedWeights s
                  \<and> morphMapper (runTicks ticks (updateConfig config s)) = morphMapper s)
       \<and> (\<forall>s' el env fresh tick.
             untilStart (updateConfig config s) s' \<and> vrmBound s
               \<and> newContext env = Some fresh \<and> ctxState fresh = Running \<and> sourceOk env \<longrightarrow>
             fst (start el env tick s')
           \<and> analyser (audioAnalyzer (snd (start el env tick s'))) = Some ())"
proof -
  let ?s = "updateConfig config s"
  have a: "audioAnalyzer ?s = newAudioAnalyzer (engineAnalyzerConfig x)"
    by (rule updateConfig_smoothing [OF sm])
  then have un: "uninitialised (audioAnalyzer ?s)" by (simp add: uninitialised_new)
  then have un0: "analyser (audioAnalyzer ?s) = None" by (simp add: uninitialised_def)
  have ni: "\<not> isInitialized (audioAnalyzer ?s)"
    by (simp add: a isInitialized_def new_analyzer_fields)
  have r: "isRunning ?s" using run by (simp add: updateConfig_smoothing [OF sm])
  have skip: "fst (analyze (tickSpectrum tick) (audioAnalyzer s')) = Inr None
      \<and> fst (animate tick s') = None
      \<and> smoothedWeights (snd (animate tick s')) = smoothedWeights s'
      \<and> morphMapper (snd (animate tick s')) = morphMapper s'" if "untilStart ?s s'" for s' tick
  proof -
    from untilStart_uninitialised [OF that un]
    have un': "analyser (audioAnalyzer s') = None" by (simp add: uninitialised_def)
    show ?thesis
      by (simp add: analyze_uninitialised [OF un'] animate_uninitialised [OF un'])
  qed
  have runs: "smoothedWeights (runTicks ticks ?s) = smoothedWeights s
      \<and> morphMapper (runTicks ticks ?s) = morphMapper s" for ticks
    using runTicks_uninitialised [OF un0, of ticks] by (simp add: updateConfig_smoothing [OF sm])
  have again: "fst (start el env tick s')
      \<and> analyser (audioAnalyzer (snd (start el env tick s'))) = Some ()"
    if "untilStart ?s s'" "vrmBound s" "newContext env = Some fresh" "ctxState fresh = Running"
      "sourceOk env"
    for s' el env fresh tick
  proof -
    have b: "vrmBound s'"
      using untilStart_bound [OF that(1)] that(2) by (simp add: updateConfig_smoothing [OF sm])
    from untilStart_uninitialised [OF that(1) un]
    have c: "audioContext (audioAnalyzer s') = None" by (simp add: uninitialised_def)
    show ?thesis by (rule start_after_update [OF b c that(3,4,5)])
  qed
  from a ni r skip runs again show ?thesis by blast
qed

theorem C10_witness:
  "isRunning runningEngine
   \<and> smoothingOpt halfSmoothing = Some (1 / 2)
   \<and> analyser (audioAnalyzer runningEngine) = Some ()
   \<and> \<not> isInitialized (audioAnalyzer (updateConfig halfSmoothing runningEngine))
   \<and> untilStart (updateConfig halfSmoothing runningEngine)
        (runTicks [laterTick] (updateConfig halfSmoothing runningEngine))
   \<and> fst (analyze speechSpectrum
            (audioAnalyzer (runTicks [laterTick] (updateConfig halfSmoothing runningEngine)))) = Inr None
   \<and> smoothedWeights (runTicks [laterTick, laterTick] (updateConfig halfSmoothing runningEngine))
       = smoothedWeights runningEngine
   \<and> morphMapper (runTicks [laterTick, laterTick] (updateConfig halfSmoothing runningEngine))
       = morphMapper runningEngine
   \<and> fst (start 0 browser laterTick
            (runTicks [laterTick] (updateConfig halfSmoothing runningEngine)))"
proof -
  have sm: "smoothingOpt halfSmoothing = Some (1 / 2)"
    by (simp add: halfSmoothing_def noConfig_def)
  have sp: "tickSpectrum laterTick = speechSpectrum" by (simp add: laterTick_def)
  have ctx: "newContext browser = Some browserContext" "ctxState browserContext = Running"
    "sourceOk browser"
    by (simp_all add: browserContext_def browser_def)
  let ?s = "updateConfig halfSmoothing runningEngine"
  have u: "untilStart ?s (runTicks [laterTick] ?s)" by (rule untilStart_runTicks)
  note c = C10_update_config_skips_ticks [OF runningEngine_fields(1) sm]
  from c have 1: "\<not> isInitialized (audioAnalyzer ?s)" by blast
  from c u have 2: "fst (analyze (tickSpectrum laterTick) (audioAnalyzer (runTicks [laterTick] ?s))) = Inr None"
    by blast
  from c have 3: "smoothedWeights (runTicks [laterTick, laterTick] ?s) = smoothedWeights runningEngine"
    "morphMapper (runTicks [laterTick, laterTick] ?s) = morphMapper runningEngine"
    by blast+
  from c u runningEngine_fields(2) ctx
  have 4: "fst (start 0 browser laterTick (runTicks [laterTick] ?s))" by blast
  from 1 2 3 4 u sm runningEngine_fields show ?thesis by (simp add: sp)
qed

text \<open>
  Claim C1, as the code has it. When \<open>stop\<close> returns, \<open>isRunning\<close> is false, the smoothed
  weights are zero and the mapper has been reset, so every sink of a direct vowel channel
  reads 0. The steps of \<open>runTestSequence\<close> do not read the run state: run after \<open>stop\<close>,
  they do what they would do on a running engine, and the engine stays stopped while
  they run. Nothing cancels them.
\<close>

theorem C1_stop_does_not_cancel_test_sequence:
  "isRunning (stop s) = False
   \<and> smoothedWeights (stop s) = zeroWeights
   \<and> morphMapper (stop s) = reset (morphMapper s)
   \<and> (\<forall>vrm. mmVrm (morphMapper s) = Some vrm \<longrightarrow>
         (\<forall>t \<in> set (vrcTargets (morphTargetMap (morphMapper s))).
            hasSink (meshes vrm) (fst t) \<longrightarrow> sinkOf (stop s) (fst t) (snd t) = Some 0))
   \<and> (\<forall>steps b. runTestSteps steps ((stop s)\<lparr>isRunning := b\<rparr>)
                    = (runTestSteps steps (stop s))\<lparr>isRunning := b\<rparr>)
   \<and> (\<forall>steps. isRunning (runTestSteps steps (stop s)) = False)"
proof -
  have zero: "sinkOf (stop s) (fst t) (snd t) = Some 0"
    if "mmVrm (morphMapper s) = Some vrm" "t \<in> set (vrcTargets (morphTargetMap (morphMapper s)))"
      "hasSink (meshes vrm) (fst t)" for vrm t
    using that
    by (simp add: sinkOf_def stop_fields reset_meshes vrmUpdate_def readInfluence_writeTargets)
  have idle: "isRunning (runTestSteps steps (stop s)) = False" for steps
    using runTestSteps_idle [of "stop s" steps] by (simp add: stop_fields)
  from zero idle show ?thesis
    by (simp add: stop_fields runTestSteps_flag)
qed

theorem C1_witness:
  "sinkOf midSequence 0 0 = Some (2 / 10)
   \<and> isRunning (stop midSequence) = False
   \<and> smoothedWeights (stop midSequence) = zeroWeights
   \<and> sinkOf (stop midSequence) 0 0 = Some 0
   \<and> runTestSteps (drop 3 testSequenceSteps) ((stop midSequence)\<lparr>isRunning := True\<rparr>)
       = (runTestSteps (drop 3 testSequenceSteps) (stop midSequence))\<lparr>isRunning := True\<rparr>
   \<and> isRunning (runTestSteps (drop 3 testSequenceSteps) (stop midSequence)) = False"
proof -
  obtain infl where m: "morphMapper midSequence = faceMapper infl 3" and i: "infl 0 = Some (2 / 10)"
    using midSequence_fields(2) by blast
  let ?vrm = "\<lparr>meshes = [faceMesh\<lparr>morphTargetInfluences := Some infl\<rparr>],
               expressionManager = None, vrmUpdates = 3\<rparr>"
  have v: "mmVrm (morphMapper midSequence) = Some ?vrm" by (simp add: m faceMapper_fields)
  have t: "(0, 0) \<in> set (vrcTargets (morphTargetMap (morphMapper midSequence)))"
    by (simp add: m faceMapper_fields vrcTargets_face)
  have h: "hasSink (meshes ?vrm) (fst (0 :: nat, 0 :: nat))" by (simp add: hasSink_def)
  note c1 = C1_stop_does_not_cancel_test_sequence [of midSequence]
  from c1 v t h have "sinkOf (stop midSequence) 0 0 = Some 0" by fastforce
  moreover from c1 have "isRunning (stop midSequence) = False"
    "smoothedWeights (stop midSequence) = zeroWeights"
    "runTestSteps (drop 3 testSequenceSteps) ((stop midSequence)\<lparr>isRunning := True\<rparr>)
       = (runTestSteps (drop 3 testSequenceSteps) (stop midSequence))\<lparr>isRunning := True\<rparr>"
    "isRunning (runTestSteps (drop 3 testSequenceSteps) (stop midSequence)) = False"
    by blast+
  moreover have "sinkOf midSequence 0 0 = Some (2 / 10)" by (simp add: sinkOf_face [OF m] i)
  ultimately show ?thesis by blast
qed

text \<open>
  The claim fails when \<open>stop\<close> is called after the third step of the sequence: \<open>stop\<close>
  zeroes the channel \<open>vrc.v_aa\<close>, and the fourth step, a \<open>testVowel\<close> call, then writes 0.3
  to it.
\<close>

theorem C1_counterexample:
  "sinkOf midSequence 0 0 = Some (2 / 10)
   \<and> isRunning (stop midSequence) = False
   \<and> sinkOf (stop midSequence) 0 0 = Some 0
   \<and> testSequenceSteps ! 3 = TestVowel ''aa'' (3 / 10)
   \<and> sinkOf (runTestStep (stop midSequence) (testSequenceSteps ! 3)) 0 0 = Some (3 / 10)"
proof -
  obtain infl where m: "morphMapper midSequence = faceMapper infl 3" and i: "infl 0 = Some (2 / 10)"
    using midSequence_fields(2) by blast
  have step: "testSequenceSteps ! 3 = TestVowel ''aa'' (3 / 10)"
    using arg_cong [OF first_steps, of "\<lambda>xs. xs ! 3"] by simp
  have b: "vrmBound (stop midSequence)" by (simp add: stop_fields midSequence_fields(1))
  note st = stop_face [OF m]
  note tv = testVowel_face(2) [OF b st, of "3 / 10"]
  have "sinkOf (testVowel ''aa'' (3 / 10) (stop midSequence)) 0 0 = Some (3 / 10)"
    by (simp add: sinkOf_face [OF tv])
  moreover have "sinkOf (stop midSequence) 0 0 = Some 0" by (simp add: sinkOf_face [OF st])
  moreover have "sinkOf midSequence 0 0 = Some (2 / 10)" by (simp add: sinkOf_face [OF m] i)
  ultimately show ?thesis by (simp add: step stop_fields)
qed

section \<open>The reachable states of the engine and the silence decay\<close>
















lemma reachable_runTicks: "reachable s \<Longrightarrow> reachable (runTicks ticks s)"
  unfolding runTicks_def by (induction ticks arbitrary: s) (simp_all add: reachable.ticked)

























end
